theory Spec2Isabelle
  imports Complex_Main
begin

section \<open>Go integers, runtime panics and slices\<close>

text \<open>
  Go's \<open>int\<close> is a 64-bit two's complement integer on the platforms the game is built for.
  Integer values are modelled as mathematical integers and every addition and
  subtraction of the source is followed by \<open>wrap64\<close>, which is the identity on the
  representable range and wraps around outside it.
\<close>

definition wrap64 :: "int \<Rightarrow> int" where
  "wrap64 i = (i + 9223372036854775808) mod 18446744073709551616 - 9223372036854775808"

definition int64 :: "int \<Rightarrow> bool" where
  "int64 i = (- 9223372036854775808 \<le> i \<and> i < 9223372036854775808)"

text \<open>
  A run-time panic of the Go runtime ends the program. The three kinds the modelled code
  can raise: a slice index out of range, a failed type assertion \<open>x.(T)\<close> and a method
  called through a nil pointer.
\<close>

datatype panic = IndexOutOfRange | TypeAssertion | NilDereference

definition bindE :: "panic + 'a \<Rightarrow> ('a \<Rightarrow> panic + 'b) \<Rightarrow> panic + 'b" where
  "bindE r f = (case r of Inl e \<Rightarrow> Inl e | Inr v \<Rightarrow> f v)"

text \<open>\<open>xs[i]\<close> on a slice: the runtime checks \<open>0 \<le> i < len(xs)\<close> and panics otherwise.\<close>

definition index :: "'a list \<Rightarrow> int \<Rightarrow> panic + 'a" where
  "index xs i = (if 0 \<le> i \<and> i < int (length xs) then Inr (xs ! nat i) else Inl IndexOutOfRange)"

section \<open>Grid points (\<open>image.Point\<close>)\<close>

record Point =
  X :: int
  Y :: int

definition Pt :: "int \<Rightarrow> int \<Rightarrow> Point" where
  "Pt x y = \<lparr>X = x, Y = y\<rparr>"

definition Add :: "Point \<Rightarrow> Point \<Rightarrow> Point" where
  "Add p q = \<lparr>X = wrap64 (X p + X q), Y = wrap64 (Y p + Y q)\<rparr>"

definition Sub :: "Point \<Rightarrow> Point \<Rightarrow> Point" where
  "Sub p q = \<lparr>X = wrap64 (X p - X q), Y = wrap64 (Y p - Y q)\<rparr>"

section \<open>The level map\<close>

text \<open>\<open>type LevelMap [][]int\<close>: a slice of rows, a cell is free when it holds 0.\<close>

type_synonym LevelMap = "int list list"

text \<open>\<open>isFreeAt\<close>: \<open>return m[p.Y][p.X] == 0\<close>, with no test of \<open>p\<close> before the two indexings.\<close>

definition isFreeAt :: "LevelMap \<Rightarrow> Point \<Rightarrow> panic + bool" where
  "isFreeAt m p =
     bindE (index m (Y p)) (\<lambda>row.
     bindE (index row (X p)) (\<lambda>c. Inr (c = 0)))"

text \<open>\<open>SetObstacle\<close>: \<open>m[y][x] = 1\<close>.\<close>

definition SetObstacle :: "LevelMap \<Rightarrow> int \<Rightarrow> int \<Rightarrow> panic + LevelMap" where
  "SetObstacle m x y =
     bindE (index m y) (\<lambda>row.
     bindE (index row x) (\<lambda>_. Inr (m[nat y := row[nat x := 1]])))"

definition offsets :: "Point list" where
  "offsets = [Pt 0 (- 1), Pt 1 0, Pt 0 1, Pt (- 1) 0]"

definition offsetsDiag :: "Point list" where
  "offsetsDiag = [Pt 1 (- 1), Pt 1 1, Pt (- 1) 1, Pt (- 1) (- 1)]"

text \<open>
  The first loop of \<open>Neighbours\<close>, over the diagonal offsets. The condition
  \<open>m.isFreeAt(q) && m.isFreeAt(q1) && m.isFreeAt(q2)\<close> is evaluated left to right and
  stops at the first false operand, so a later cell is only indexed when the earlier ones
  are free.
\<close>

fun diagLoop :: "LevelMap \<Rightarrow> Point \<Rightarrow> Point list \<Rightarrow> Point list \<Rightarrow> panic + Point list" where
  "diagLoop m p [] neighbours = Inr neighbours"
| "diagLoop m p (off # offs) neighbours =
     (let q = Add p off;
          q1 = Add p (Pt 0 (Y off));
          q2 = Add p (Pt (X off) 0)
      in bindE (isFreeAt m q) (\<lambda>f.
         bindE (if f then isFreeAt m q1 else Inr False) (\<lambda>f1.
         bindE (if f1 then isFreeAt m q2 else Inr False) (\<lambda>f2.
         diagLoop m p offs (if f2 then neighbours @ [q] else neighbours)))))"

text \<open>The second loop, over the orthogonal offsets.\<close>

fun orthLoop :: "LevelMap \<Rightarrow> Point \<Rightarrow> Point list \<Rightarrow> Point list \<Rightarrow> panic + Point list" where
  "orthLoop m p [] neighbours = Inr neighbours"
| "orthLoop m p (off # offs) neighbours =
     (let q = Add p off
      in bindE (isFreeAt m q) (\<lambda>f.
         orthLoop m p offs (if f then neighbours @ [q] else neighbours)))"

definition Neighbours :: "LevelMap \<Rightarrow> Point \<Rightarrow> panic + Point list" where
  "Neighbours m p =
     bindE (diagLoop m p offsetsDiag []) (\<lambda>neighbours.
     orthLoop m p offsets neighbours)"

section \<open>Path simplification\<close>

text \<open>
  The loop of \<open>simplifyPath\<close>: \<open>prev\<close> is the last step vector seen, \<open>result\<close> the
  points kept so far. A point that has a successor is dropped when the step to its successor
  equals \<open>prev\<close>; the last point is always kept.
\<close>

fun simplifyLoop :: "Point \<Rightarrow> Point list \<Rightarrow> Point list \<Rightarrow> Point list" where
  "simplifyLoop prev result [] = result"
| "simplifyLoop prev result [p] = result @ [p]"
| "simplifyLoop prev result (p # p' # rest) =
     (let next = Sub p' p
      in if prev = next then simplifyLoop prev result (p' # rest)
         else simplifyLoop next (result @ [p]) (p' # rest))"

definition simplifyPath :: "Point list \<Rightarrow> Point list" where
  "simplifyPath path = simplifyLoop (Pt 0 0) [] path"

section \<open>The game screen\<close>

subsection \<open>Audio\<close>

text \<open>
  The sounds named by the modelled code. Audio is fire-and-forget: the model records the
  calls \<open>Pause\<close>, \<open>Rewind\<close> and \<open>Play\<close> in the order they are made. \<open>SoundAt s i\<close> is the
  player \<open>g.Sounds[s][i]\<close> of the game screen, \<open>SoundOf s\<close> the player \<open>g.Sounds[s]\<close> of
  the boss code, \<open>VoiceAt i\<close> the player \<open>g.Voices[voiceCheckpoint][i]\<close>.
\<close>

datatype sound =
    soundMusicBackground | soundGunShot | soundGunReload | soundDogBark | soundPlayerDies
  | soundHit1 | soundDryFire | soundBigZombieDeath1 | soundBigZombieScream
  | soundBigZombieDeath2

datatype audioPlayer = SoundAt sound nat | SoundOf sound | VoiceAt nat

datatype audioEvent = Pause audioPlayer | Rewind audioPlayer | Play audioPlayer

text \<open>
  \<open>NewGameScreen\<close> fills \<open>g.Voices[voiceCheckpoint]\<close> with 7 players, the one at index \<open>i\<close>
  loaded from \<open>Checkpoint-(i+1).ogg\<close>.
\<close>

definition Voices :: "audioPlayer list" where
  "Voices = map VoiceAt [0..<7]"

subsection \<open>State\<close>

text \<open>
  The player's states: the five that \<open>Shoot\<close> and \<open>Update\<close> name, and \<open>playerOther n\<close> for
  any further value of the enumeration, whose declaration is not in these files.
\<close>

datatype playerState =
    playerShooting | playerReady | playerUnready | playerReload | playerDryFire
  | playerOther nat

text \<open>Of \<open>Player\<close>, the fields \<open>Ammo\<close> and \<open>State\<close> (here \<open>PlayerState\<close>).\<close>

record Player =
  Ammo :: int
  PlayerState :: playerState

datatype zombieState = zombieIdle | zombieWalking | zombieHit | zombieDead

text \<open>
  Of \<open>Zombie\<close>, the fields \<open>HitToDie\<close>, \<open>State\<close> (here \<open>ZombieState\<close>) and \<open>Speed\<close>
  (a float64, here a real number: the one value the modelled code stores in it is a constant).
\<close>

record Zombie =
  HitToDie :: int
  ZombieState :: zombieState
  Speed :: real

datatype dogMode = dogWalking | dogSniffing | dogSitting | dogDead

record Dog =
  Mode :: dogMode

datatype GameState = gameRunning | gameOver | gameWon

text \<open>
  What an object of the collision space carries: its tags and its \<open>Data\<close>, an
  \<open>interface{}\<close> that holds nothing, an \<open>int\<close> (a checkpoint's number) or a \<open>*Zombie\<close>
  (the address of a zombie).
\<close>

datatype data = NoData | IntData int | ZombieData nat

record Object =
  Tags :: "string list"
  Data :: data

definition tagPlayer :: string where "tagPlayer = ''player''"
definition tagMob :: string where "tagMob = ''mob''"
definition tagWall :: string where "tagWall = ''wall''"
definition tagDog :: string where "tagDog = ''dog''"
definition tagEnd :: string where "tagEnd = ''end''"
definition tagCheckpoint :: string where "tagCheckpoint = ''check''"

definition HasTags :: "Object \<Rightarrow> string \<Rightarrow> bool" where
  "HasTags ob t = (t \<in> set (Tags ob))"

text \<open>
  Of \<open>GameScreen\<close>: the tick, the player, the dog, the zombies (a store from addresses to
  zombies, a \<open>*Zombie\<close> being an address), the checkpoint reached, the flag
  \<open>BossDefeated\<close> that the boss code sets, and the audio calls made so far.
\<close>

record GameScreen =
  Tick :: int
  Player :: Player
  Dog :: Dog
  Zombies :: "nat \<rightharpoonup> Zombie"
  Checkpoint :: int
  BossDefeated :: bool
  Audio :: "audioEvent list"

text \<open>
  What one tick takes from outside the modelled code: the input (\<open>R\<close> just pressed, left
  button just clicked), the methods of the player, the dog, the zombies and the spawn
  points, which are not in these files, and the answers of the collision space \<open>resolv\<close>:
  \<open>CellsInLine\<close> are the objects of the cells along the line of fire, in order;
  \<open>PlayerCheck t\<close> is \<open>g.Player.Object.Check(0, 0, t)\<close>, \<open>None\<close> for \<open>nil\<close> and otherwise
  the \<open>Objects\<close> of the collision; \<open>PlayerOverlaps\<close> is \<open>g.Player.Object.Overlaps\<close>,
  \<open>PlayerIntersects ob\<close> is \<open>g.Player.Object.Shape.Intersection(0, 0, ob.Shape) != nil\<close>;
  \<open>DogCheck\<close> and \<open>DogOverlaps\<close> are the same for the dog's object.
\<close>

record Env =
  keyR :: bool
  clicked :: bool
  PlayerReload :: "GameScreen \<Rightarrow> GameScreen"
  PlayerUpdate :: "GameScreen \<Rightarrow> GameScreen"
  DogUpdate :: "GameScreen \<Rightarrow> GameScreen"
  ZombiesUpdate :: "GameScreen \<Rightarrow> GameScreen"
  SpawnPointsUpdate :: "GameScreen \<Rightarrow> GameScreen"
  CellsInLine :: "Object list list"
  PlayerCheck :: "string \<Rightarrow> Object list option"
  PlayerOverlaps :: "Object \<Rightarrow> bool"
  PlayerIntersects :: "Object \<Rightarrow> bool"
  DogCheck :: "string \<Rightarrow> Object list option"
  DogOverlaps :: "Object \<Rightarrow> bool"

definition playAudio :: "audioEvent list \<Rightarrow> GameScreen \<Rightarrow> GameScreen" where
  "playAudio es g = g\<lparr>Audio := Audio g @ es\<rparr>"

subsection \<open>Shooting\<close>

text \<open>
  Modelled from the spec: \<open>Zombie.Hit\<close>, which \<open>Shoot\<close> calls and whose definition is not in
  these files. The spec has a hit "apply one unit of damage (decrement \<open>HitToDie\<close>)".
\<close>

definition Hit :: "Zombie \<Rightarrow> Zombie" where
  "Hit z = z\<lparr>HitToDie := wrap64 (HitToDie z - 1)\<rparr>"

text \<open>The closure \<open>interruptReload\<close> of \<open>Shoot\<close>.\<close>

definition interruptReload :: "GameScreen \<Rightarrow> GameScreen" where
  "interruptReload g =
     (let g1 = playAudio [Pause (SoundAt soundGunReload 0), Rewind (SoundAt soundDryFire 0),
                          Play (SoundAt soundDryFire 0)] g
      in g1\<lparr>Player := (Player g1)\<lparr>PlayerState := playerDryFire\<rparr>\<rparr>)"

text \<open>
  The body of \<open>if o.HasTags(tagMob)\<close> in the loops of \<open>Shoot\<close>: the hit sound and
  \<open>o.Data.(*Zombie).Hit()\<close>. The type assertion panics when \<open>Data\<close> holds no \<open>*Zombie\<close>,
  and \<open>Hit\<close> through a pointer to no zombie panics too.
\<close>

definition hitObject :: "GameScreen \<Rightarrow> Object \<Rightarrow> panic + GameScreen" where
  "hitObject g ob =
     (let g1 = playAudio [Rewind (SoundAt soundHit1 0), Play (SoundAt soundHit1 0)] g
      in case Data ob of
           ZombieData a \<Rightarrow>
             (case Zombies g1 a of
                None \<Rightarrow> Inl NilDereference
              | Some z \<Rightarrow> Inr (g1\<lparr>Zombies := (Zombies g1)(a \<mapsto> Hit z)\<rparr>))
         | _ \<Rightarrow> Inl TypeAssertion)"

text \<open>
  The inner loop, over the objects of one cell: \<open>Some\<close> is the state in which \<open>Shoot\<close>
  returns after a hit, \<open>None\<close> says that no object of the cell has the tag.
\<close>

fun shootObjects :: "GameScreen \<Rightarrow> Object list \<Rightarrow> panic + GameScreen option" where
  "shootObjects g [] = Inr None"
| "shootObjects g (ob # obs) =
     (if HasTags ob tagMob then bindE (hitObject g ob) (\<lambda>g'. Inr (Some g'))
      else shootObjects g obs)"

text \<open>The outer loop, over the cells of the line of fire.\<close>

fun shootCells :: "GameScreen \<Rightarrow> Object list list \<Rightarrow> panic + GameScreen" where
  "shootCells g [] = Inr g"
| "shootCells g (c # cs) =
     bindE (shootObjects g c) (\<lambda>r. case r of Some g' \<Rightarrow> Inr g' | None \<Rightarrow> shootCells g cs)"

text \<open>
  \<open>Shoot\<close>. In the default branch \<open>Ammo\<close> is at least 1 when it is decremented, so the
  decrement cannot overflow.
\<close>

definition Shoot :: "Env \<Rightarrow> GameScreen \<Rightarrow> panic + GameScreen" where
  "Shoot env g =
     (case PlayerState (Player g) of
        playerShooting \<Rightarrow> Inr g
      | playerReady \<Rightarrow> Inr g
      | playerUnready \<Rightarrow> Inr g
      | playerReload \<Rightarrow> Inr (interruptReload g)
      | _ \<Rightarrow>
          if Ammo (Player g) < 1 then Inr (interruptReload g)
          else
            (let g1 = playAudio [Rewind (SoundAt soundGunShot 0), Play (SoundAt soundGunShot 0)] g;
                 g2 = g1\<lparr>Player := (Player g1)\<lparr>Ammo := Ammo (Player g1) - 1,
                                               PlayerState := playerShooting\<rparr>\<rparr>
             in shootCells g2 (CellsInLine env)))"

subsection \<open>One tick of the game screen\<close>

text \<open>
  \<open>Update\<close>, in the blocks its comments divide it into. The first block: the tick
  counter, the reload key, the gun, and the updates of the player, the dog, the zombies and
  the spawn points.
\<close>

definition Update_agents :: "Env \<Rightarrow> GameScreen \<Rightarrow> panic + GameScreen" where
  "Update_agents env g =
     (let g1 = g\<lparr>Tick := wrap64 (Tick g + 1)\<rparr>;
          g2 = (if keyR env then
                  (case PlayerState (Player g1) of
                     playerShooting \<Rightarrow> g1
                   | playerReload \<Rightarrow> g1
                   | _ \<Rightarrow> PlayerReload env g1)
                else g1)
      in bindE (if clicked env then Shoot env g2 else Inr g2) (\<lambda>g3.
         Inr (SpawnPointsUpdate env (ZombiesUpdate env (DogUpdate env (PlayerUpdate env g3))))))"

text \<open>
  Collision between zombie and player: \<open>Some\<close> is the early return with \<open>gameOver\<close>.
\<close>

definition Update_playerMob :: "Env \<Rightarrow> GameScreen \<Rightarrow> panic + (GameScreen \<times> GameState) option" where
  "Update_playerMob env g =
     (case PlayerCheck env tagMob of
        None \<Rightarrow> Inr None
      | Some objs \<Rightarrow>
          bindE (index objs 0) (\<lambda>ob.
            if PlayerOverlaps env ob \<and> PlayerIntersects env ob then
              Inr (Some (playAudio [Pause (SoundAt soundMusicBackground 0),
                                    Rewind (SoundAt soundMusicBackground 0),
                                    Rewind (SoundAt soundPlayerDies 0),
                                    Play (SoundAt soundPlayerDies 0)] g, gameOver))
            else Inr None))"

text \<open>
  The checkpoint block. \<open>o.Data.(int)\<close> panics when \<open>Data\<close> holds no \<open>int\<close>; the
  checkpoint is assigned before the voice is looked up in the slice of 7 players. The new
  checkpoint is greater than another int, so \<open>g.Checkpoint-1\<close> does not overflow.
\<close>

definition Update_checkpoint :: "Env \<Rightarrow> GameScreen \<Rightarrow> panic + GameScreen" where
  "Update_checkpoint env g =
     (case PlayerCheck env tagCheckpoint of
        None \<Rightarrow> Inr g
      | Some objs \<Rightarrow>
          bindE (index objs 0) (\<lambda>ob.
            if PlayerOverlaps env ob then
              (case Data ob of
                 IntData n \<Rightarrow>
                   if Checkpoint g < n then
                     (let g1 = g\<lparr>Checkpoint := n\<rparr>
                      in bindE (index Voices (Checkpoint g1 - 1)) (\<lambda>v.
                         Inr (playAudio [Rewind v, Play v] g1)))
                   else Inr g
               | _ \<Rightarrow> Inl TypeAssertion)
            else Inr g))"

text \<open>Reaching the \<open>End\<close> entity: \<open>Some\<close> is the early return with \<open>gameWon\<close>.\<close>

definition Update_end :: "Env \<Rightarrow> GameScreen \<Rightarrow> panic + (GameScreen \<times> GameState) option" where
  "Update_end env g =
     (case PlayerCheck env tagEnd of
        None \<Rightarrow> Inr None
      | Some objs \<Rightarrow>
          bindE (index objs 0) (\<lambda>ob.
            if PlayerOverlaps env ob then Inr (Some (g, gameWon)) else Inr None))"

text \<open>Collision between zombie and dog.\<close>

definition Update_dogMob :: "Env \<Rightarrow> GameScreen \<Rightarrow> panic + GameScreen" where
  "Update_dogMob env g =
     (case DogCheck env tagMob of
        None \<Rightarrow> Inr g
      | Some objs \<Rightarrow>
          bindE (index objs 0) (\<lambda>ob.
            if DogOverlaps env ob then Inr (g\<lparr>Dog := (Dog g)\<lparr>Mode := dogDead\<rparr>\<rparr>)
            else Inr g))"

text \<open>
  The end of \<open>Update\<close>: game over if the dog is dead, and the game goes on otherwise (the
  camera, which is then positioned, is not part of the model).
\<close>

definition Update_dogDead :: "GameScreen \<Rightarrow> GameScreen \<times> GameState" where
  "Update_dogDead g =
     (if Mode (Dog g) = dogDead then
        (playAudio [Pause (SoundAt soundMusicBackground 0),
                    Rewind (SoundAt soundMusicBackground 0)] g, gameOver)
      else (g, gameRunning))"

definition Update_collisions :: "Env \<Rightarrow> GameScreen \<Rightarrow> panic + (GameScreen \<times> GameState)" where
  "Update_collisions env g =
     bindE (Update_playerMob env g) (\<lambda>r.
       case r of
         Some res \<Rightarrow> Inr res
       | None \<Rightarrow>
           bindE (Update_checkpoint env g) (\<lambda>g1.
           bindE (Update_end env g1) (\<lambda>r1.
             case r1 of
               Some res \<Rightarrow> Inr res
             | None \<Rightarrow> bindE (Update_dogMob env g1) (\<lambda>g2. Inr (Update_dogDead g2)))))"

definition Update :: "Env \<Rightarrow> GameScreen \<Rightarrow> panic + (GameScreen \<times> GameState)" where
  "Update env g = bindE (Update_agents env g) (Update_collisions env)"


subsection \<open>Predicates and example data\<close>

text \<open>The first object with the tag of a zombie along the line of fire.\<close>

definition firstMob :: "Object list list \<Rightarrow> Object option" where
  "firstMob cells = find (\<lambda>ob. HasTags ob tagMob) (concat cells)"

text \<open>The player can fire: no state that \<open>Shoot\<close> turns away, and a round left.\<close>

definition canFire :: "GameScreen \<Rightarrow> bool" where
  "canFire g =
     (PlayerState (Player g) \<noteq> playerShooting \<and> PlayerState (Player g) \<noteq> playerReady \<and>
      PlayerState (Player g) \<noteq> playerUnready \<and> PlayerState (Player g) \<noteq> playerReload \<and>
      1 \<le> Ammo (Player g))"

text \<open>
  A tick in which nothing is pressed and nothing collides, and in which the methods that
  are not in these files leave the game as it is.
\<close>

definition quietEnv :: Env where
  "quietEnv =
     \<lparr>keyR = False, clicked = False,
      PlayerReload = (\<lambda>g. g), PlayerUpdate = (\<lambda>g. g), DogUpdate = (\<lambda>g. g),
      ZombiesUpdate = (\<lambda>g. g), SpawnPointsUpdate = (\<lambda>g. g),
      CellsInLine = [],
      PlayerCheck = (\<lambda>t. None), PlayerOverlaps = (\<lambda>ob. False),
      PlayerIntersects = (\<lambda>ob. False),
      DogCheck = (\<lambda>t. None), DogOverlaps = (\<lambda>ob. False)\<rparr>"

definition mobAt :: "nat \<Rightarrow> Object" where
  "mobAt a = \<lparr>Tags = [tagMob], Data = ZombieData a\<rparr>"

definition wallObject :: Object where
  "wallObject = \<lparr>Tags = [tagWall], Data = NoData\<rparr>"

definition zombie3 :: Zombie where
  "zombie3 = \<lparr>HitToDie = 3, ZombieState = zombieWalking, Speed = 1\<rparr>"

text \<open>
  A game with two zombies, at the addresses 1 and 2, a player with \<open>ammo\<close> rounds in
  the state \<open>st\<close>, and a line of fire that meets a wall, then zombie 1, then zombie 2.
\<close>

definition gameWith :: "int \<Rightarrow> playerState \<Rightarrow> GameScreen" where
  "gameWith ammo st =
     \<lparr>Tick = 0, Player = \<lparr>Ammo = ammo, PlayerState = st\<rparr>, Dog = \<lparr>Mode = dogWalking\<rparr>,
      Zombies = [1 \<mapsto> zombie3, 2 \<mapsto> zombie3], Checkpoint = 0, BossDefeated = False,
      Audio = []\<rparr>"

definition lineEnv :: Env where
  "lineEnv = quietEnv\<lparr>clicked := True, CellsInLine := [[wallObject], [mobAt 1, mobAt 2], [mobAt 2]]\<rparr>"

text \<open>
  A zombie is on the dog, as \<open>Update\<close> finds out: the first object of the dog's collision
  with the tag of a zombie overlaps the dog.
\<close>

definition zombieOnDog :: "Env \<Rightarrow> bool" where
  "zombieOnDog env =
     (case DogCheck env tagMob of Some (ob # _) \<Rightarrow> DogOverlaps env ob | _ \<Rightarrow> False)"

text \<open>The checkpoint voices played, by their index in \<open>Voices\<close>, in the order of the calls.\<close>

fun voicePlays :: "audioEvent list \<Rightarrow> nat list" where
  "voicePlays [] = []"
| "voicePlays (Play (VoiceAt i) # es) = i # voicePlays es"
| "voicePlays (e # es) = voicePlays es"

text \<open>
  A method that is not in these files leaves the checkpoint alone: it neither assigns
  \<open>g.Checkpoint\<close> nor plays a checkpoint voice.
\<close>

definition leavesCheckpoint :: "(GameScreen \<Rightarrow> GameScreen) \<Rightarrow> bool" where
  "leavesCheckpoint f =
     (\<forall>g. Checkpoint (f g) = Checkpoint g \<and> voicePlays (Audio (f g)) = voicePlays (Audio g))"

definition checkpointOnlyHere :: "Env \<Rightarrow> bool" where
  "checkpointOnlyHere env =
     (leavesCheckpoint (PlayerReload env) \<and> leavesCheckpoint (PlayerUpdate env) \<and>
      leavesCheckpoint (DogUpdate env) \<and> leavesCheckpoint (ZombiesUpdate env) \<and>
      leavesCheckpoint (SpawnPointsUpdate env))"

definition endObject :: Object where
  "endObject = \<lparr>Tags = [tagEnd], Data = NoData\<rparr>"

definition checkpointObject :: "int \<Rightarrow> Object" where
  "checkpointObject n = \<lparr>Tags = [tagCheckpoint], Data = IntData n\<rparr>"

text \<open>A tick in which a zombie is on the dog.\<close>

definition dogEnv :: Env where
  "dogEnv =
     quietEnv\<lparr>DogCheck := (\<lambda>t. if t = tagMob then Some [mobAt 1] else None),
              DogOverlaps := (\<lambda>ob. True)\<rparr>"

text \<open>A tick in which a zombie is on the dog and the player stands on the \<open>End\<close> entity.\<close>

definition endEnv :: Env where
  "endEnv =
     dogEnv\<lparr>PlayerCheck := (\<lambda>t. if t = tagEnd then Some [endObject] else None),
            PlayerOverlaps := (\<lambda>ob. True)\<rparr>"

text \<open>A tick in which the player stands on checkpoint \<open>n\<close>.\<close>

definition checkpointEnv :: "int \<Rightarrow> Env" where
  "checkpointEnv n =
     quietEnv\<lparr>PlayerCheck := (\<lambda>t. if t = tagCheckpoint then Some [checkpointObject n] else None),
              PlayerOverlaps := (\<lambda>ob. True)\<rparr>"


section \<open>The boss\<close>

text \<open>
  The animation tags of the boss that its code names (their generated declaration is not
  in these files) and a frame tag, the range of frames of one animation.
\<close>

datatype bossAnimationTags =
    bossIdle1 | bossWalking1 | bossHit1 | bossIdle2 | bossWalking2 | bossHit2
  | bossIdle3 | bossWalking3 | bossIdle4 | bossRunning | bossDeath1 | bossPhase2 | bossDeath2

record FrameTag =
  From :: int
  To :: int

text \<open>
  \<open>Boss\<close>: the inner zombie (the struct embeds a \<open>*Zombie\<close>; the model keeps the zombie
  itself, which no other code of these files reaches through the boss), the phase flag,
  the animation state, the frame and the flag of the final death.
\<close>

record Boss =
  Zombie :: Zombie
  Daemon :: bool
  State :: bossAnimationTags
  Frame :: int
  Dead :: bool

text \<open>
  What the boss code takes from elsewhere in the repository: the function
  \<open>Animate\<close>, the frame tags of the sprite sheet (\<open>z.Sprite.Meta.FrameTags[z.State]\<close>),
  the methods \<open>Update\<close> and \<open>Die\<close> of the inner zombie, and the constant
  \<open>zombieSprinterSpeed\<close>. An \<open>error\<close> is \<open>None\<close> for \<open>nil\<close> and its message otherwise.
\<close>

record BossEnv =
  Animate :: "int \<Rightarrow> int \<Rightarrow> FrameTag \<Rightarrow> int"
  FrameTags :: "bossAnimationTags \<Rightarrow> FrameTag"
  ZombieUpdate :: "GameScreen \<Rightarrow> Zombie \<Rightarrow> string option \<times> GameScreen \<times> Zombie"
  ZombieDie :: "GameScreen \<Rightarrow> Zombie \<Rightarrow> GameScreen \<times> Zombie"
  zombieSprinterSpeed :: real

text \<open>
  The two nested switches at the head of \<open>Boss.Update\<close>: the animation state for the
  phase, the hits left and the state of the inner zombie. Where no case matches, the state
  stays as it is.
\<close>

definition selectState :: "Boss \<Rightarrow> bossAnimationTags" where
  "selectState z =
     (let h = HitToDie (Zombie z); s = ZombieState (Zombie z)
      in if Daemon z then
           (if h = 2 then
              (case s of zombieHit \<Rightarrow> bossDeath1 | zombieIdle \<Rightarrow> bossIdle4
               | zombieWalking \<Rightarrow> bossRunning | _ \<Rightarrow> State z)
            else if h = 1 then
              (case s of zombieHit \<Rightarrow> bossDeath2 | _ \<Rightarrow> State z)
            else State z)
         else
           (if h = 10 \<or> h = 9 \<or> h = 8 then
              (case s of zombieIdle \<Rightarrow> bossIdle1 | zombieWalking \<Rightarrow> bossWalking1
               | zombieHit \<Rightarrow> bossHit1 | _ \<Rightarrow> State z)
            else if h = 7 then
              (case s of zombieHit \<Rightarrow> bossHit1 | zombieIdle \<Rightarrow> bossIdle2
               | zombieWalking \<Rightarrow> bossWalking2 | _ \<Rightarrow> State z)
            else if h = 6 \<or> h = 5 then
              (case s of zombieHit \<Rightarrow> bossHit2 | zombieIdle \<Rightarrow> bossIdle2
               | zombieWalking \<Rightarrow> bossWalking2 | _ \<Rightarrow> State z)
            else if h = 4 \<or> h = 3 then
              (case s of zombieHit \<Rightarrow> bossHit2 | zombieIdle \<Rightarrow> bossIdle3
               | zombieWalking \<Rightarrow> bossWalking3 | _ \<Rightarrow> State z)
            else if h = 2 then
              (case s of zombieHit \<Rightarrow> bossDeath1 | zombieIdle \<Rightarrow> bossIdle4
               | zombieWalking \<Rightarrow> bossRunning | _ \<Rightarrow> State z)
            else if h = 1 then
              (case s of zombieHit \<Rightarrow> bossDeath2 | _ \<Rightarrow> State z)
            else State z))"

text \<open>\<open>Boss.Die\<close>: the inner zombie dies, the boss is dead, the boss is defeated.\<close>

definition BossDie :: "BossEnv \<Rightarrow> GameScreen \<Rightarrow> Boss \<Rightarrow> GameScreen \<times> Boss" where
  "BossDie env g z =
     (let (g1, zz) = ZombieDie env g (Zombie z)
      in (g1\<lparr>BossDefeated := True\<rparr>, z\<lparr>Zombie := zz, Dead := True\<rparr>))"

text \<open>\<open>outterAnimationBasedStateChanges\<close>: what the end of an animation brings about.\<close>

definition outterAnimationBasedStateChanges ::
    "BossEnv \<Rightarrow> GameScreen \<Rightarrow> Boss \<Rightarrow> GameScreen \<times> Boss" where
  "outterAnimationBasedStateChanges env g z =
     (case State z of
        bossHit1 \<Rightarrow>
          (g, z\<lparr>State := bossWalking1, Zombie := (Zombie z)\<lparr>ZombieState := zombieWalking\<rparr>\<rparr>)
      | bossHit2 \<Rightarrow>
          (g, z\<lparr>State := bossWalking2, Zombie := (Zombie z)\<lparr>ZombieState := zombieWalking\<rparr>\<rparr>)
      | bossDeath1 \<Rightarrow>
          (playAudio [Play (SoundOf soundBigZombieDeath1)] g,
           z\<lparr>Daemon := True, State := bossPhase2,
             Zombie := (Zombie z)\<lparr>Speed := zombieSprinterSpeed env * 2,
                                  ZombieState := zombieWalking\<rparr>\<rparr>)
      | bossPhase2 \<Rightarrow>
          (playAudio [Play (SoundOf soundBigZombieScream)] g,
           z\<lparr>State := bossRunning, Zombie := (Zombie z)\<lparr>ZombieState := zombieWalking\<rparr>\<rparr>)
      | bossDeath2 \<Rightarrow>
          (let (g1, z1) = BossDie env (playAudio [Play (SoundOf soundBigZombieDeath2)] g) z
           in (g1, z1\<lparr>Zombie := (Zombie z1)\<lparr>ZombieState := zombieDead\<rparr>\<rparr>))
      | _ \<Rightarrow> (g, z))"

text \<open>
  \<open>Boss.Update\<close>: nothing but an error once dead; otherwise the state is selected, the
  frame advanced, the end of the animation handled, and the inner zombie updated unless
  the boss is in one of its death or transition animations.
\<close>

definition BossUpdate ::
    "BossEnv \<Rightarrow> GameScreen \<Rightarrow> Boss \<Rightarrow> string option \<times> GameScreen \<times> Boss" where
  "BossUpdate env g z =
     (if Dead z then (Some ''Zombie Boss died'', g, z)
      else
        (let z1 = z\<lparr>State := selectState z\<rparr>;
             z2 = z1\<lparr>Frame := Animate env (Frame z1) (Tick g) (FrameTags env (State z1))\<rparr>;
             (g3, z3) = (if Frame z2 = To (FrameTags env (State z2))
                         then outterAnimationBasedStateChanges env g z2 else (g, z2))
         in if State z3 = bossDeath1 \<or> State z3 = bossDeath2 \<or> State z3 = bossPhase2
            then (None, g3, z3)
            else (let (err, g4, zz) = ZombieUpdate env g3 (Zombie z3)
                  in (err, g4, z3\<lparr>Zombie := zz\<rparr>))))"

subsection \<open>Example data for the boss\<close>

text \<open>
  An environment for the boss: an animation that moves one frame on per call inside the
  range of the tag and starts at its first frame from outside, ranges of two frames for
  the death and transition animations, and methods of the inner zombie that do nothing.
\<close>

definition bossEnv1 :: BossEnv where
  "bossEnv1 =
     \<lparr>Animate = (\<lambda>frame tick ft. if From ft \<le> frame \<and> frame < To ft then frame + 1 else From ft),
      FrameTags = (\<lambda>t. case t of
          bossDeath1 \<Rightarrow> \<lparr>From = 20, To = 21\<rparr>
        | bossDeath2 \<Rightarrow> \<lparr>From = 22, To = 23\<rparr>
        | bossPhase2 \<Rightarrow> \<lparr>From = 24, To = 25\<rparr>
        | _ \<Rightarrow> \<lparr>From = 0, To = 19\<rparr>),
      ZombieUpdate = (\<lambda>g z. (None, g, z)),
      ZombieDie = (\<lambda>g z. (g, z)),
      zombieSprinterSpeed = 3\<rparr>"

text \<open>A boss in phase 1 that has just been hit down to two hits left.\<close>

definition phase1Boss :: Boss where
  "phase1Boss =
     \<lparr>Zombie = \<lparr>HitToDie = 2, ZombieState = zombieHit, Speed = 1\<rparr>,
      Daemon = False, State = bossWalking3, Frame = 5, Dead = False\<rparr>"

text \<open>One tick of the boss alone, and a shot that hits its zombie between two ticks.\<close>

definition bossTick :: "Boss \<Rightarrow> Boss" where
  "bossTick z = snd (snd (BossUpdate bossEnv1 (gameWith 1 playerReady) z))"

definition hitBoss :: "Boss \<Rightarrow> Boss" where
  "hitBoss z = z\<lparr>Zombie := Hit (Zombie z)\<rparr>"


section \<open>Vectors of floats\<close>




















section \<open>Predicates used in the statements\<close>

text \<open>
  A well-formed grid of width \<open>w\<close> and height \<open>h\<close>: \<open>h\<close> rows, each of \<open>w\<close> cells, as
  the source's \<open>CreateMap\<close> allocates it; slice lengths are Go ints.
\<close>

definition isGrid :: "LevelMap \<Rightarrow> int \<Rightarrow> int \<Rightarrow> bool" where
  "isGrid m w h =
     (int (length m) = h \<and> list_all (\<lambda>row. int (length row) = w) m \<and>
      w < 9223372036854775808 \<and> h < 9223372036854775808)"

definition inBounds :: "int \<Rightarrow> int \<Rightarrow> Point \<Rightarrow> bool" where
  "inBounds w h p = (0 \<le> X p \<and> X p < w \<and> 0 \<le> Y p \<and> Y p < h)"

text \<open>An interior cell: in bounds and not on the first or last row or column.\<close>

definition interior :: "int \<Rightarrow> int \<Rightarrow> Point \<Rightarrow> bool" where
  "interior w h p = (0 < X p \<and> X p < w - 1 \<and> 0 < Y p \<and> Y p < h - 1)"

definition cell :: "LevelMap \<Rightarrow> Point \<Rightarrow> int" where
  "cell m q = m ! nat (Y q) ! nat (X q)"

definition diagFree :: "LevelMap \<Rightarrow> Point \<Rightarrow> Point \<Rightarrow> bool" where
  "diagFree m p d =
     (cell m (Add p d) = 0 \<and> cell m (Add p (Pt 0 (Y d))) = 0 \<and> cell m (Add p (Pt (X d) 0)) = 0)"

text \<open>A 3 by 3 grid with one obstacle, east of the centre.\<close>

definition grid3 :: LevelMap where
  "grid3 = [[0, 0, 0], [0, 0, 1], [0, 0, 0]]"

text \<open>A grid point: both coordinates are indices a Go slice can have.\<close>

definition gridPoint :: "Point \<Rightarrow> bool" where
  "gridPoint p =
     (0 \<le> X p \<and> X p < 9223372036854775808 \<and> 0 \<le> Y p \<and> Y p < 9223372036854775808)"

text \<open>
  A path of unit steps: every point is followed by itself or one of its 8 neighbours,
  as are the paths the search returns over \<open>Neighbours\<close>.
\<close>

fun unitSteps :: "Point list \<Rightarrow> bool" where
  "unitSteps (p # p' # rest) =
     (\<bar>X p' - X p\<bar> \<le> 1 \<and> \<bar>Y p' - Y p\<bar> \<le> 1 \<and> unitSteps (p' # rest))"
| "unitSteps _ = True"

definition diff :: "Point \<Rightarrow> Point \<Rightarrow> Point" where
  "diff p q = \<lparr>X = X p - X q, Y = Y p - Y q\<rparr>"

definition sg :: "Point \<Rightarrow> Point" where
  "sg v = \<lparr>X = sgn (X v), Y = sgn (Y v)\<rparr>"

text \<open>\<open>turns s ys\<close>: no step of \<open>ys\<close> points the way the step before it does (\<open>s\<close> before the first).\<close>

fun turns :: "Point \<Rightarrow> Point list \<Rightarrow> bool" where
  "turns s (y # z # r) = (sg (diff z y) \<noteq> s \<and> turns (sg (diff z y)) (z # r))"
| "turns s _ = True"

section \<open>Facts about integers and the error monad\<close>

lemma wrap64_id: "int64 i \<Longrightarrow> wrap64 i = i"
  by (simp add: wrap64_def int64_def)

lemma wrap64_succ:
  "int64 x \<Longrightarrow>
   wrap64 (x + 1) = (if x = 9223372036854775807 then - 9223372036854775808 else x + 1)"
  by (auto simp: wrap64_def int64_def)

lemma wrap64_pred:
  "int64 x \<Longrightarrow>
   wrap64 (x - 1) = (if x = - 9223372036854775808 then 9223372036854775807 else x - 1)"
  by (auto simp: wrap64_def int64_def)

lemma Pt_eta: "Pt (X d) (Y d) = d"
  by (simp add: Pt_def)

section \<open>The neighbours of a cell\<close>

lemma isFreeAt_in: "isGrid m w h \<Longrightarrow> inBounds w h q \<Longrightarrow> isFreeAt m q = Inr (cell m q = 0)"
  by (auto simp: isGrid_def inBounds_def isFreeAt_def index_def bindE_def cell_def list_all_iff)

lemma isFreeAt_out: "isGrid m w h \<Longrightarrow> \<not> inBounds w h q \<Longrightarrow> isFreeAt m q = Inl IndexOutOfRange"
  by (auto simp: isGrid_def inBounds_def isFreeAt_def index_def bindE_def list_all_iff)

lemma isFreeAt_Inr: "isGrid m w h \<Longrightarrow> isFreeAt m q = Inr b \<Longrightarrow> inBounds w h q"
  using isFreeAt_out by fastforce

lemma isFreeAt_Inl: "isFreeAt m q = Inl e \<Longrightarrow> e = IndexOutOfRange"
  by (auto simp: isFreeAt_def index_def bindE_def split: if_splits)

lemma diagLoop_in:
  "isGrid m w h \<Longrightarrow>
   \<forall>d\<in>set ds. inBounds w h (Add p d) \<and> inBounds w h (Add p (Pt 0 (Y d))) \<and>
      inBounds w h (Add p (Pt (X d) 0)) \<Longrightarrow>
   diagLoop m p ds acc = Inr (acc @ map (Add p) (filter (diagFree m p) ds))"
  by (induction ds arbitrary: acc) (simp_all add: isFreeAt_in bindE_def diagFree_def Let_def)

lemma orthLoop_in:
  "isGrid m w h \<Longrightarrow> \<forall>d\<in>set ds. inBounds w h (Add p d) \<Longrightarrow>
   orthLoop m p ds acc = Inr (acc @ map (Add p) (filter (\<lambda>d. cell m (Add p d) = 0) ds))"
  by (induction ds arbitrary: acc) (simp_all add: isFreeAt_in bindE_def Let_def)

lemma Add_small:
  "int64 (X p + a) \<Longrightarrow> int64 (Y p + b) \<Longrightarrow> Add p (Pt a b) = \<lparr>X = X p + a, Y = Y p + b\<rparr>"
  by (simp add: Add_def Pt_def wrap64_id)

lemma interior_around:
  assumes "isGrid m w h" "interior w h p" "\<bar>a\<bar> \<le> 1" "\<bar>b\<bar> \<le> 1"
  shows "Add p (Pt a b) = \<lparr>X = X p + a, Y = Y p + b\<rparr>" "inBounds w h (Add p (Pt a b))"
proof -
  have "int64 (X p + a)" "int64 (Y p + b)"
    using assms by (auto simp: isGrid_def interior_def int64_def)
  then show 1: "Add p (Pt a b) = \<lparr>X = X p + a, Y = Y p + b\<rparr>" by (rule Add_small)
  show "inBounds w h (Add p (Pt a b))"
    unfolding 1 using assms by (auto simp: inBounds_def interior_def)
qed

lemma small_offsets: "d \<in> set (offsetsDiag @ offsets) \<Longrightarrow> \<bar>X d\<bar> \<le> 1 \<and> \<bar>Y d\<bar> \<le> 1"
  by (auto simp: offsetsDiag_def offsets_def Pt_def)

lemma disjoint_offsets: "d \<in> set offsetsDiag \<Longrightarrow> d \<notin> set offsets"
  by (auto simp: offsetsDiag_def offsets_def Pt_def)

lemma Neighbours_interior_eq:
  assumes "isGrid m w h" "interior w h p"
  shows "Neighbours m p = Inr (map (Add p) (filter (diagFree m p) offsetsDiag) @
            map (Add p) (filter (\<lambda>d. cell m (Add p d) = 0) offsets))"
proof -
  have d: "\<forall>d\<in>set offsetsDiag. inBounds w h (Add p d) \<and> inBounds w h (Add p (Pt 0 (Y d))) \<and>
      inBounds w h (Add p (Pt (X d) 0))"
    using interior_around(2)[OF assms] by (simp add: offsetsDiag_def Pt_def)
  have o: "\<forall>d\<in>set offsets. inBounds w h (Add p d)"
    using interior_around(2)[OF assms] by (simp add: offsets_def Pt_def)
  show ?thesis
    by (simp add: Neighbours_def diagLoop_in[OF assms(1) d] orthLoop_in[OF assms(1) o] bindE_def)
qed

text \<open>
  C1, as the code has it. \<open>Neighbours\<close> tests none of the cells it indexes, so it returns
  only where all eight surrounding cells exist: for every interior cell \<open>p\<close> of a
  well-formed grid, \<open>Neighbours\<close> returns a list of at most 8 cells, each of them one of
  the 8 adjacent cells and free; the diagonal neighbour \<open>p + d\<close> is in the list if and only
  if the diagonal cell, the orthogonal cell \<open>p + (0, d.Y)\<close> and the orthogonal cell
  \<open>p + (d.X, 0)\<close> are all free; an orthogonal neighbour is in the list if and only if it
  is free.
\<close>

theorem Neighbours_interior:
  assumes "isGrid m w h" "interior w h p"
  shows "\<exists>ns. Neighbours m p = Inr ns \<and> length ns \<le> 8 \<and>
           (\<forall>q\<in>set ns. q \<in> set (map (Add p) (offsetsDiag @ offsets)) \<and> isFreeAt m q = Inr True) \<and>
           (\<forall>d\<in>set offsetsDiag. (Add p d \<in> set ns) =
              (isFreeAt m (Add p d) = Inr True \<and>
               isFreeAt m (Add p (Pt 0 (Y d))) = Inr True \<and>
               isFreeAt m (Add p (Pt (X d) 0)) = Inr True)) \<and>
           (\<forall>d\<in>set offsets. (Add p d \<in> set ns) = (isFreeAt m (Add p d) = Inr True))"
proof -
  let ?S = "set (offsetsDiag @ offsets)"
  let ?D = "filter (diagFree m p) offsetsDiag"
  let ?O = "filter (\<lambda>d. cell m (Add p d) = 0) offsets"
  let ?ns = "map (Add p) ?D @ map (Add p) ?O"
  note around = interior_around[OF assms]
  have fr: "isFreeAt m (Add p (Pt a b)) = Inr (cell m (Add p (Pt a b)) = 0)"
    if "\<bar>a\<bar> \<le> 1" "\<bar>b\<bar> \<le> 1" for a b
    by (rule isFreeAt_in[OF assms(1) around(2)[OF that]])
  have frd: "isFreeAt m (Add p d) = Inr (cell m (Add p d) = 0)" if "d \<in> ?S" for d
    using fr[of "X d" "Y d"] small_offsets[OF that] by (simp add: Pt_eta)
  have eq: "Neighbours m p = Inr ?ns" by (rule Neighbours_interior_eq[OF assms])
  have len: "length ?ns \<le> 8"
  proof -
    have "length ?D \<le> 4" using length_filter_le[of "diagFree m p" offsetsDiag]
      by (simp add: offsetsDiag_def)
    moreover have "length ?O \<le> 4"
      using length_filter_le[of "\<lambda>d. cell m (Add p d) = 0" offsets] by (simp add: offsets_def)
    ultimately show ?thesis by simp
  qed
  have inj: "inj_on (Add p) ?S"
  proof (rule inj_onI)
    fix a b assume a: "a \<in> ?S" and b: "b \<in> ?S" and e: "Add p a = Add p b"
    have "Add p a = \<lparr>X = X p + X a, Y = Y p + Y a\<rparr>"
      using around(1)[of "X a" "Y a"] small_offsets[OF a] by (simp add: Pt_eta)
    moreover have "Add p b = \<lparr>X = X p + X b, Y = Y p + Y b\<rparr>"
      using around(1)[of "X b" "Y b"] small_offsets[OF b] by (simp add: Pt_eta)
    ultimately show "a = b" using e by simp
  qed
  have sub: "set ?D \<union> set ?O \<subseteq> ?S" by auto
  have in_ns: "(Add p d \<in> set ?ns) = (d \<in> set ?D \<union> set ?O)" if "d \<in> ?S" for d
  proof -
    have "set ?ns = Add p ` (set ?D \<union> set ?O)" by (simp add: image_Un)
    then show ?thesis using inj_on_image_mem_iff[OF inj that sub] by simp
  qed
  have mem: "\<forall>q\<in>set ?ns. q \<in> set (map (Add p) (offsetsDiag @ offsets)) \<and> isFreeAt m q = Inr True"
  proof
    fix q assume "q \<in> set ?ns"
    then obtain d where d: "q = Add p d" "d \<in> set ?D \<union> set ?O" by auto
    then have dS: "d \<in> ?S" using sub by blast
    have "cell m (Add p d) = 0" using d(2) by (auto simp: diagFree_def)
    then show "q \<in> set (map (Add p) (offsetsDiag @ offsets)) \<and> isFreeAt m q = Inr True"
      using d(1) dS frd[OF dS] by auto
  qed
  have diag: "\<forall>d\<in>set offsetsDiag. (Add p d \<in> set ?ns) =
              (isFreeAt m (Add p d) = Inr True \<and>
               isFreeAt m (Add p (Pt 0 (Y d))) = Inr True \<and>
               isFreeAt m (Add p (Pt (X d) 0)) = Inr True)"
  proof
    fix d assume d: "d \<in> set offsetsDiag"
    then have dS: "d \<in> ?S" by simp
    have s: "\<bar>X d\<bar> \<le> 1" "\<bar>Y d\<bar> \<le> 1" using small_offsets[OF dS] by simp_all
    have "(Add p d \<in> set ?ns) = diagFree m p d"
      using in_ns[OF dS] d disjoint_offsets[OF d] by simp
    also have "\<dots> = (isFreeAt m (Add p d) = Inr True \<and>
               isFreeAt m (Add p (Pt 0 (Y d))) = Inr True \<and>
               isFreeAt m (Add p (Pt (X d) 0)) = Inr True)"
      using frd[OF dS] fr[of 0 "Y d"] fr[of "X d" 0] s by (simp add: diagFree_def)
    finally show "(Add p d \<in> set ?ns) =
              (isFreeAt m (Add p d) = Inr True \<and>
               isFreeAt m (Add p (Pt 0 (Y d))) = Inr True \<and>
               isFreeAt m (Add p (Pt (X d) 0)) = Inr True)" .
  qed
  have orth: "\<forall>d\<in>set offsets. (Add p d \<in> set ?ns) = (isFreeAt m (Add p d) = Inr True)"
  proof
    fix d assume d: "d \<in> set offsets"
    then have dS: "d \<in> ?S" by simp
    have "d \<notin> set offsetsDiag" using disjoint_offsets d by blast
    then have "(Add p d \<in> set ?ns) = (cell m (Add p d) = 0)"
      using in_ns[OF dS] d by simp
    then show "(Add p d \<in> set ?ns) = (isFreeAt m (Add p d) = Inr True)"
      using frd[OF dS] by simp
  qed
  show ?thesis using eq len mem diag orth by blast
qed

lemma grid3_isGrid: "isGrid grid3 3 3"
  by (simp add: isGrid_def grid3_def)

text \<open>\<open>grid3\<close> is the empty 3 by 3 grid after \<open>SetObstacle(2, 1)\<close>.\<close>

lemma grid3_built: "SetObstacle [[0, 0, 0], [0, 0, 0], [0, 0, 0]] 2 1 = Inr grid3"
  by (simp add: SetObstacle_def index_def bindE_def grid3_def numeral_3_eq_3 numeral_2_eq_2)

text \<open>
  At the centre of \<open>grid3\<close> the cell to the east is an obstacle: the north-east cell is free
  and yet not a neighbour, the north-west cell is one.
\<close>

theorem Neighbours_interior_witness:
  "isGrid grid3 3 3 \<and> interior 3 3 (Pt 1 1) \<and> isFreeAt grid3 (Pt 2 0) = Inr True \<and>
   (\<exists>ns. Neighbours grid3 (Pt 1 1) = Inr ns \<and> length ns \<le> 8 \<and>
      Pt 2 0 \<notin> set ns \<and> Pt 0 0 \<in> set ns)"
proof -
  have i: "interior 3 3 (Pt 1 1)" by (simp add: interior_def Pt_def)
  from Neighbours_interior[OF grid3_isGrid i] obtain ns where
    ns: "Neighbours grid3 (Pt 1 1) = Inr ns" "length ns \<le> 8"
    and diag: "\<forall>d\<in>set offsetsDiag. (Add (Pt 1 1) d \<in> set ns) =
              (isFreeAt grid3 (Add (Pt 1 1) d) = Inr True \<and>
               isFreeAt grid3 (Add (Pt 1 1) (Pt 0 (Y d))) = Inr True \<and>
               isFreeAt grid3 (Add (Pt 1 1) (Pt (X d) 0)) = Inr True)"
    by blast
  have ne: "Pt 2 0 \<notin> set ns"
    using bspec[OF diag, of "Pt 1 (- 1)"]
    by (simp add: offsetsDiag_def Add_def Pt_def wrap64_def isFreeAt_def index_def bindE_def
        grid3_def)
  have nw: "Pt 0 0 \<in> set ns"
    using bspec[OF diag, of "Pt (- 1) (- 1)"]
    by (simp add: offsetsDiag_def Add_def Pt_def wrap64_def isFreeAt_def index_def bindE_def
        grid3_def)
  have f: "isFreeAt grid3 (Pt 2 0) = Inr True"
    by (simp add: Pt_def isFreeAt_def index_def bindE_def grid3_def)
  show ?thesis using grid3_isGrid i f ns ne nw by blast
qed

text \<open>
  The claim as stated fails on the border: the corner \<open>(0, 0)\<close> of \<open>grid3\<close> is in bounds,
  and \<open>Neighbours\<close> returns no list there but panics on the row \<open>-1\<close>.
\<close>

theorem Neighbours_border_counterexample:
  "isGrid grid3 3 3 \<and> inBounds 3 3 (Pt 0 0) \<and> Neighbours grid3 (Pt 0 0) = Inl IndexOutOfRange"
  by (simp add: isGrid_def inBounds_def grid3_def Neighbours_def offsetsDiag_def offsets_def
      Add_def Pt_def wrap64_def isFreeAt_def index_def bindE_def)

section \<open>Cells outside the grid\<close>

lemma diagLoop_Inl: "diagLoop m p ds acc = Inl e \<Longrightarrow> e = IndexOutOfRange"
  by (induction ds arbitrary: acc)
     (auto simp: bindE_def Let_def split: sum.splits if_splits dest: isFreeAt_Inl)

lemma orthLoop_Inl: "orthLoop m p ds acc = Inl e \<Longrightarrow> e = IndexOutOfRange"
  by (induction ds arbitrary: acc)
     (auto simp: bindE_def Let_def split: sum.splits if_splits dest: isFreeAt_Inl)

lemma Neighbours_Inl: "Neighbours m p = Inl e \<Longrightarrow> e = IndexOutOfRange"
  by (auto simp: Neighbours_def bindE_def split: sum.splits dest: diagLoop_Inl orthLoop_Inl)

lemma orthLoop_Inr:
  "orthLoop m p ds acc = Inr ns \<Longrightarrow> \<forall>d\<in>set ds. \<exists>b. isFreeAt m (Add p d) = Inr b"
  by (induction ds arbitrary: acc) (auto simp: bindE_def Let_def split: sum.splits)

lemma Neighbours_Inr_interior:
  assumes g: "isGrid m w h" and p: "int64 (X p)" "int64 (Y p)" and r: "Neighbours m p = Inr ns"
  shows "interior w h p"
proof -
  from r obtain ds where "orthLoop m p offsets ds = Inr ns"
    by (auto simp: Neighbours_def bindE_def split: sum.splits)
  from orthLoop_Inr[OF this] have "\<forall>d\<in>set offsets. inBounds w h (Add p d)"
    using isFreeAt_Inr[OF g] by blast
  then have b: "inBounds w h (Add p (Pt 0 (- 1)))" "inBounds w h (Add p (Pt 1 0))"
     "inBounds w h (Add p (Pt 0 1))" "inBounds w h (Add p (Pt (- 1) 0))"
    by (simp_all add: offsets_def)
  have w: "w < 9223372036854775808" "h < 9223372036854775808"
    using g by (simp_all add: isGrid_def)
  have "0 < X p \<and> X p < w - 1"
    using b(2,4) w p(1) wrap64_succ[OF p(1)] wrap64_pred[OF p(1)]
    by (auto simp: inBounds_def Add_def Pt_def split: if_splits)
  moreover have "0 < Y p \<and> Y p < h - 1"
    using b(1,3) w p(2) wrap64_succ[OF p(2)] wrap64_pred[OF p(2)]
    by (auto simp: inBounds_def Add_def Pt_def split: if_splits)
  ultimately show ?thesis by (simp add: interior_def)
qed

text \<open>
  C3, as the code has it. Neither query rejects or clamps a coordinate: \<open>isFreeAt\<close> indexes
  the grid with whatever it is given, and for every cell outside the bounds the Go runtime
  stops the program with an index-out-of-range panic, no value is returned. \<open>Neighbours\<close>
  indexes the cells around \<open>p\<close> in the same way, so on every cell that is not interior,
  the border cells among them, it indexes a row or column outside the grid and panics.
\<close>

theorem out_of_bounds_panics:
  assumes "isGrid m w h" "int64 (X p)" "int64 (Y p)"
  shows "(\<not> inBounds w h p \<longrightarrow> isFreeAt m p = Inl IndexOutOfRange) \<and>
         (\<not> interior w h p \<longrightarrow> Neighbours m p = Inl IndexOutOfRange)"
proof -
  have "Neighbours m p = Inl IndexOutOfRange" if "\<not> interior w h p"
  proof (cases "Neighbours m p")
    case (Inl e)
    then show ?thesis using Neighbours_Inl by blast
  next
    case (Inr ns)
    then show ?thesis using Neighbours_Inr_interior[OF assms] that by blast
  qed
  then show ?thesis using isFreeAt_out[OF assms(1)] by blast
qed

theorem out_of_bounds_panics_witness:
  "isGrid grid3 3 3 \<and> int64 (X (Pt 3 1)) \<and> int64 (Y (Pt 3 1)) \<and> \<not> inBounds 3 3 (Pt 3 1) \<and>
   \<not> interior 3 3 (Pt 3 1) \<and> isFreeAt grid3 (Pt 3 1) = Inl IndexOutOfRange \<and>
   Neighbours grid3 (Pt 3 1) = Inl IndexOutOfRange"
proof -
  have a: "int64 (X (Pt 3 1))" "int64 (Y (Pt 3 1))" by (simp_all add: int64_def Pt_def)
  have b: "\<not> inBounds 3 3 (Pt 3 1)" "\<not> interior 3 3 (Pt 3 1)"
    by (simp_all add: inBounds_def interior_def Pt_def)
  show ?thesis using out_of_bounds_panics[OF grid3_isGrid a] a b grid3_isGrid by blast
qed

text \<open>
  The claim as stated fails: the border cell \<open>(2, 1)\<close> of \<open>grid3\<close> is in bounds, and
  \<open>Neighbours\<close> there indexes column 3, outside the grid; the cell \<open>(-1, 0)\<close> is neither
  refused by a test nor clamped to \<open>(0, 0)\<close>, whose answer would be \<open>Inr True\<close>.
\<close>

theorem unchecked_index_counterexample:
  "inBounds 3 3 (Pt 2 1) \<and> Neighbours grid3 (Pt 2 1) = Inl IndexOutOfRange \<and>
   isFreeAt grid3 (Pt 0 0) = Inr True \<and> isFreeAt grid3 (Pt (- 1) 0) = Inl IndexOutOfRange"
  by (simp add: inBounds_def grid3_def Neighbours_def offsetsDiag_def offsets_def
      Add_def Pt_def wrap64_def isFreeAt_def index_def bindE_def)

section \<open>Path simplification\<close>

lemma Sub_grid: "gridPoint p \<Longrightarrow> gridPoint q \<Longrightarrow> Sub p q = diff p q"
  by (simp add: Sub_def diff_def gridPoint_def wrap64_id int64_def)

text \<open>The result slice is only ever appended to.\<close>

lemma simplifyLoop_acc: "simplifyLoop prev acc xs = acc @ simplifyLoop prev [] xs"
proof (induction xs arbitrary: prev acc rule: induct_list012)
  case (3 p p' rest)
  show ?case
  proof (cases "prev = Sub p' p")
    case True
    then show ?thesis using 3(2)[of prev acc] by simp
  next
    case False
    then show ?thesis
      using 3(2)[of "Sub p' p" "acc @ [p]"] 3(2)[of "Sub p' p" "[p]"] by simp
  qed
qed simp_all

lemma simplify_step:
  "simplifyLoop prev [] (p # p' # rest) =
     (if prev = Sub p' p then simplifyLoop prev [] (p' # rest)
      else p # simplifyLoop (Sub p' p) [] (p' # rest))"
  using simplifyLoop_acc[of "Sub p' p" "[p]" "p' # rest"] by simp

lemma simplify_set: "set (simplifyLoop prev [] xs) \<subseteq> set xs"
proof (induction xs arbitrary: prev rule: induct_list012)
  case (3 p p' rest)
  show ?case
    unfolding simplify_step using 3(2)[of prev] 3(2)[of "Sub p' p"] by auto
qed simp_all

text \<open>
  The first point kept of a path that starts at \<open>q\<close> lies some whole number of steps \<open>d\<close>
  after \<open>q\<close>, when \<open>d\<close> is the step before \<open>q\<close>.
\<close>

lemma simplify_head:
  "list_all gridPoint (q # rest) \<Longrightarrow>
   \<exists>(j::nat) z zs. simplifyLoop d [] (q # rest) = z # zs \<and>
      X z = X q + int j * X d \<and> Y z = Y q + int j * Y d"
proof (induction rest arbitrary: q)
  case Nil
  show ?case by (rule exI[of _ 0]) simp
next
  case (Cons r rest)
  from Cons.prems have g: "gridPoint q" "gridPoint r" "list_all gridPoint (r # rest)"
    by simp_all
  show ?case
  proof (cases "d = Sub r q")
    case True
    from Cons.IH[OF g(3)] obtain j z zs where
      h: "simplifyLoop d [] (r # rest) = z # zs"
         "X z = X r + int j * X d" "Y z = Y r + int j * Y d"
      by blast
    have d: "X d = X r - X q" "Y d = Y r - Y q"
      using True Sub_grid[OF g(2) g(1)] by (simp_all add: diff_def)
    have e: "int (Suc j) * X d = X d + int j * X d" "int (Suc j) * Y d = Y d + int j * Y d"
      by (simp_all add: distrib_right)
    have "simplifyLoop d [] (q # r # rest) = z # zs"
      using True h(1) by (simp add: simplify_step del: simplifyLoop.simps)
    moreover have "X z = X q + int (Suc j) * X d" "Y z = Y q + int (Suc j) * Y d"
      unfolding e using h(2,3) d by linarith+
    ultimately show ?thesis by blast
  next
    case False
    then have "simplifyLoop d [] (q # r # rest) = q # simplifyLoop (Sub r q) [] (r # rest)"
      by (simp add: simplify_step del: simplifyLoop.simps)
    then show ?thesis by (intro exI[of _ 0]) simp
  qed
qed

lemma sg_unit: "\<bar>X d\<bar> \<le> 1 \<Longrightarrow> \<bar>Y d\<bar> \<le> 1 \<Longrightarrow> sg d = d"
  by (cases d) (auto simp: sg_def sgn_if)

text \<open>A path that turns at every point is left as it is.\<close>

lemma turns_stable:
  "turns s ys \<Longrightarrow> list_all gridPoint ys \<Longrightarrow> sg prev = s \<Longrightarrow> simplifyLoop prev [] ys = ys"
proof (induction ys arbitrary: prev s rule: induct_list012)
  case (3 y z r)
  from 3(4) have g: "gridPoint y" "gridPoint z" "list_all gridPoint (z # r)" by simp_all
  have S: "Sub z y = diff z y" by (rule Sub_grid[OF g(2) g(1)])
  from 3(3) 3(5) have ne: "sg (diff z y) \<noteq> sg prev" and t: "turns (sg (diff z y)) (z # r)"
    by simp_all
  from ne have "prev \<noteq> diff z y" by auto
  moreover have "simplifyLoop (diff z y) [] (z # r) = z # r"
    by (rule 3(2)[OF t g(3) refl])
  ultimately show ?case by (simp add: simplify_step S del: simplifyLoop.simps)
qed simp_all

text \<open>The points kept of a path of unit steps turn at every point.\<close>

lemma simplify_turns:
  "unitSteps xs \<Longrightarrow> list_all gridPoint xs \<Longrightarrow> \<bar>X d\<bar> \<le> 1 \<Longrightarrow> \<bar>Y d\<bar> \<le> 1 \<Longrightarrow>
   turns d (simplifyLoop d [] xs)"
proof (induction xs arbitrary: d rule: induct_list012)
  case (3 p q r)
  from 3(4) have g: "gridPoint p" "gridPoint q" "list_all gridPoint (q # r)" by simp_all
  from 3(3) have u: "\<bar>X q - X p\<bar> \<le> 1" "\<bar>Y q - Y p\<bar> \<le> 1" "unitSteps (q # r)" by simp_all
  have S: "Sub q p = diff q p" by (rule Sub_grid[OF g(2) g(1)])
  show ?case
  proof (cases "d = diff q p")
    case True
    then show ?thesis
      using 3(2)[OF u(3) g(3) 3(5) 3(6)] by (simp add: simplify_step S del: simplifyLoop.simps)
  next
    case False
    let ?n = "diff q p"
    have un: "\<bar>X ?n\<bar> \<le> 1" "\<bar>Y ?n\<bar> \<le> 1" using u by (simp_all add: diff_def)
    from simplify_head[OF g(3), of ?n] obtain j z zs where
      h: "simplifyLoop ?n [] (q # r) = z # zs"
         "X z = X q + int j * X ?n" "Y z = Y q + int j * Y ?n"
      by blast
    have "diff z p = \<lparr>X = int (Suc j) * X ?n, Y = int (Suc j) * Y ?n\<rparr>"
      using h(2,3) by (simp add: diff_def algebra_simps)
    then have "sg (diff z p) = sg ?n"
      by (simp add: sg_def sgn_mult)
    then have sgz: "sg (diff z p) = ?n" using sg_unit[OF un] by simp
    have "turns ?n (z # zs)" using 3(2)[OF u(3) g(3) un] h(1) by simp
    then have "turns d (p # z # zs)" using sgz False by simp
    then show ?thesis using False h(1) by (simp add: simplify_step S del: simplifyLoop.simps)
  qed
qed simp_all

text \<open>
  C7, as the code has it. \<open>simplifyPath\<close> compares step vectors, so it is idempotent on the
  paths it is written for: for every path of grid points in which each point is followed
  by itself or one of its 8 neighbours, \<open>simplifyPath\<close> applied to its own output returns
  that output.
\<close>

theorem simplifyPath_idempotent:
  assumes "unitSteps path" "list_all gridPoint path"
  shows "simplifyPath (simplifyPath path) = simplifyPath path"
proof -
  have z: "\<bar>X (Pt 0 0)\<bar> \<le> 1" "\<bar>Y (Pt 0 0)\<bar> \<le> 1" by (simp_all add: Pt_def)
  have t: "turns (Pt 0 0) (simplifyLoop (Pt 0 0) [] path)"
    by (rule simplify_turns[OF assms z])
  have g: "list_all gridPoint (simplifyLoop (Pt 0 0) [] path)"
    using assms(2) simplify_set[of "Pt 0 0" path] by (auto simp: list_all_iff)
  have "sg (Pt 0 0) = Pt 0 0" by (simp add: sg_def Pt_def)
  from turns_stable[OF t g this] show ?thesis by (simp add: simplifyPath_def)
qed

theorem simplifyPath_idempotent_witness:
  "unitSteps [Pt 0 0, Pt 1 0, Pt 2 0, Pt 3 1] \<and>
   list_all gridPoint [Pt 0 0, Pt 1 0, Pt 2 0, Pt 3 1] \<and>
   simplifyPath [Pt 0 0, Pt 1 0, Pt 2 0, Pt 3 1] = [Pt 0 0, Pt 2 0, Pt 3 1] \<and>
   simplifyPath (simplifyPath [Pt 0 0, Pt 1 0, Pt 2 0, Pt 3 1]) =
     simplifyPath [Pt 0 0, Pt 1 0, Pt 2 0, Pt 3 1]"
proof -
  have u: "unitSteps [Pt 0 0, Pt 1 0, Pt 2 0, Pt 3 1]" by (simp add: Pt_def)
  have g: "list_all gridPoint [Pt 0 0, Pt 1 0, Pt 2 0, Pt 3 1]"
    by (simp add: Pt_def gridPoint_def)
  have s: "simplifyPath [Pt 0 0, Pt 1 0, Pt 2 0, Pt 3 1] = [Pt 0 0, Pt 2 0, Pt 3 1]"
    by (simp add: simplifyPath_def Pt_def Sub_def wrap64_def)
  show ?thesis using simplifyPath_idempotent[OF u g] u g s by simp
qed

text \<open>
  The claim as stated fails on a path with a longer step: of the collinear points
  \<open>(0,0), (1,0), (2,0), (4,0)\<close> the first pass keeps \<open>(0,0), (2,0), (4,0)\<close>, whose two steps
  are now equal, and the second pass drops \<open>(2,0)\<close>.
\<close>

theorem simplifyPath_not_idempotent_counterexample:
  "simplifyPath [Pt 0 0, Pt 1 0, Pt 2 0, Pt 4 0] = [Pt 0 0, Pt 2 0, Pt 4 0] \<and>
   simplifyPath (simplifyPath [Pt 0 0, Pt 1 0, Pt 2 0, Pt 4 0]) = [Pt 0 0, Pt 4 0]"
  by (simp add: simplifyPath_def Pt_def Sub_def wrap64_def)


section \<open>Shooting\<close>

lemma bindE_simps [simp]: "bindE (Inl e) f = Inl e" "bindE (Inr x) f = f x"
  by (simp_all add: bindE_def)

lemma bindE_Inr: "bindE r f = Inr v \<Longrightarrow> \<exists>x. r = Inr x \<and> f x = Inr v"
  by (cases r) simp_all

text \<open>The two loops of \<open>Shoot\<close> find the first object with the tag, cell after cell.\<close>

lemma shootObjects_find:
  "shootObjects g obs =
     (case find (\<lambda>ob. HasTags ob tagMob) obs of
        None \<Rightarrow> Inr None
      | Some ob \<Rightarrow> bindE (hitObject g ob) (\<lambda>g'. Inr (Some g')))"
  by (induction obs) simp_all

lemma find_append_cases:
  "find P (xs @ ys) = (case find P xs of None \<Rightarrow> find P ys | Some x \<Rightarrow> Some x)"
  by (induction xs) simp_all

lemma shootCells_firstMob:
  "shootCells g cells =
     (case firstMob cells of None \<Rightarrow> Inr g | Some ob \<Rightarrow> hitObject g ob)"
proof (induction cells)
  case Nil
  show ?case by (simp add: firstMob_def)
next
  case (Cons c cs)
  show ?case
  proof (cases "find (\<lambda>ob. HasTags ob tagMob) c")
    case None
    then show ?thesis using Cons
      by (simp add: firstMob_def find_append_cases shootObjects_find)
  next
    case (Some ob)
    then show ?thesis
      by (cases "hitObject g ob")
         (simp_all add: firstMob_def find_append_cases shootObjects_find)
  qed
qed

lemma Shoot_cases:
  "Shoot env g =
     (if PlayerState (Player g) = playerShooting \<or> PlayerState (Player g) = playerReady \<or>
         PlayerState (Player g) = playerUnready then Inr g
      else if PlayerState (Player g) = playerReload \<or> Ammo (Player g) < 1
        then Inr (interruptReload g)
      else shootCells
        (g\<lparr>Audio := Audio g @ [Rewind (SoundAt soundGunShot 0), Play (SoundAt soundGunShot 0)],
           Player := (Player g)\<lparr>Ammo := Ammo (Player g) - 1, PlayerState := playerShooting\<rparr>\<rparr>)
        (CellsInLine env))"
  by (cases "PlayerState (Player g)") (simp_all add: Shoot_def playAudio_def Let_def)

text \<open>
  C5, as the code has it. With \<open>Ammo = 0\<close>, \<open>Shoot\<close> returns, changes no zombie, leaves
  \<open>Ammo\<close> at 0 and plays no gunshot. In the states \<open>playerShooting\<close>, \<open>playerReady\<close> and
  \<open>playerUnready\<close> it does nothing at all; in every other state it takes the dry-fire path:
  the reload sound is paused, the dry-fire sound is played and the state becomes
  \<open>playerDryFire\<close>.
\<close>

theorem Shoot_no_ammo:
  assumes "Ammo (Player g) = 0"
  shows "\<exists>g'. Shoot env g = Inr g' \<and> Zombies g' = Zombies g \<and> Ammo (Player g') = 0 \<and>
           (if PlayerState (Player g) = playerShooting \<or> PlayerState (Player g) = playerReady \<or>
               PlayerState (Player g) = playerUnready
            then g' = g
            else PlayerState (Player g') = playerDryFire \<and>
                 Audio g' = Audio g @ [Pause (SoundAt soundGunReload 0),
                   Rewind (SoundAt soundDryFire 0), Play (SoundAt soundDryFire 0)])"
  using assms
  by (simp add: Shoot_cases interruptReload_def playAudio_def Let_def)

theorem Shoot_no_ammo_witness:
  "Ammo (Player (gameWith 0 (playerOther 0))) = 0 \<and>
   (\<exists>g'. Shoot lineEnv (gameWith 0 (playerOther 0)) = Inr g' \<and>
      Zombies g' = Zombies (gameWith 0 (playerOther 0)) \<and> Ammo (Player g') = 0 \<and>
      PlayerState (Player g') = playerDryFire \<and>
      Audio g' = [Pause (SoundAt soundGunReload 0), Rewind (SoundAt soundDryFire 0),
                  Play (SoundAt soundDryFire 0)])"
proof -
  have a: "Ammo (Player (gameWith 0 (playerOther 0))) = 0" by (simp add: gameWith_def)
  show ?thesis using Shoot_no_ammo[OF a, of lineEnv] a by (simp add: gameWith_def)
qed

text \<open>
  The claim as stated fails in the state \<open>playerShooting\<close>, the state the last round
  leaves the player in: with \<open>Ammo = 0\<close> the trigger does nothing, no dry-fire sound is
  played and the state does not become \<open>playerDryFire\<close>.
\<close>

theorem Shoot_no_dry_fire_counterexample:
  "Ammo (Player (gameWith 0 playerShooting)) = 0 \<and>
   Shoot lineEnv (gameWith 0 playerShooting) = Inr (gameWith 0 playerShooting) \<and>
   PlayerState (Player (gameWith 0 playerShooting)) = playerShooting \<and>
   Audio (gameWith 0 playerShooting) = []"
  by (simp add: Shoot_def gameWith_def)

text \<open>
  C6. When a shot is fired (the player in none of the states \<open>playerShooting\<close>,
  \<open>playerReady\<close>, \<open>playerUnready\<close>, \<open>playerReload\<close>, and \<open>Ammo\<close> at least 1), \<open>Ammo\<close> goes
  down by exactly 1 and at most one zombie is hit, once: the zombie of the first object
  with the tag \<open>mob\<close> along the cells of the line of fire, in their order. Its \<open>HitToDie\<close>
  goes down by one and every other zombie is as before; with no such object no zombie
  changes. (\<open>Shoot\<close> panics when that first object carries no zombie.)
\<close>

theorem Shoot_one_hit:
  assumes "canFire g"
  shows "case firstMob (CellsInLine env) of
           None \<Rightarrow>
             \<exists>g'. Shoot env g = Inr g' \<and> Ammo (Player g') = Ammo (Player g) - 1 \<and>
                  Zombies g' = Zombies g \<and>
                  Audio g' = Audio g @ [Rewind (SoundAt soundGunShot 0),
                                        Play (SoundAt soundGunShot 0)]
         | Some ob \<Rightarrow>
             (case Data ob of
                ZombieData a \<Rightarrow>
                  (case Zombies g a of
                     None \<Rightarrow> Shoot env g = Inl NilDereference
                   | Some z \<Rightarrow>
                       \<exists>g'. Shoot env g = Inr g' \<and> Ammo (Player g') = Ammo (Player g) - 1 \<and>
                            Zombies g' =
                              (Zombies g)(a \<mapsto> z\<lparr>HitToDie := wrap64 (HitToDie z - 1)\<rparr>) \<and>
                            Audio g' = Audio g @ [Rewind (SoundAt soundGunShot 0),
                                                  Play (SoundAt soundGunShot 0),
                                                  Rewind (SoundAt soundHit1 0),
                                                  Play (SoundAt soundHit1 0)])
              | _ \<Rightarrow> Shoot env g = Inl TypeAssertion)"
proof -
  have "Shoot env g = shootCells
        (g\<lparr>Audio := Audio g @ [Rewind (SoundAt soundGunShot 0), Play (SoundAt soundGunShot 0)],
           Player := (Player g)\<lparr>Ammo := Ammo (Player g) - 1, PlayerState := playerShooting\<rparr>\<rparr>)
        (CellsInLine env)"
    using assms by (simp add: Shoot_cases canFire_def)
  then show ?thesis
    by (simp add: shootCells_firstMob hitObject_def playAudio_def Hit_def Let_def
        split: option.splits data.splits)
qed

theorem Shoot_one_hit_witness:
  "canFire (gameWith 2 playerDryFire) \<and> firstMob (CellsInLine lineEnv) = Some (mobAt 1) \<and>
   (\<exists>g'. Shoot lineEnv (gameWith 2 playerDryFire) = Inr g' \<and> Ammo (Player g') = 1 \<and>
      Zombies g' 1 = Some (zombie3\<lparr>HitToDie := 2\<rparr>) \<and> Zombies g' 2 = Some zombie3)"
proof -
  have c: "canFire (gameWith 2 playerDryFire)" by (simp add: canFire_def gameWith_def)
  have f: "firstMob (CellsInLine lineEnv) = Some (mobAt 1)"
    by (simp add: firstMob_def lineEnv_def quietEnv_def wallObject_def mobAt_def HasTags_def
        tagMob_def tagWall_def)
  have z: "Zombies (gameWith 2 playerDryFire) 1 = Some zombie3"
    by (simp add: gameWith_def)
  from Shoot_one_hit[OF c, of lineEnv] obtain g' where
    "Shoot lineEnv (gameWith 2 playerDryFire) = Inr g'"
    "Ammo (Player g') = Ammo (Player (gameWith 2 playerDryFire)) - 1"
    "Zombies g' =
       (Zombies (gameWith 2 playerDryFire))(1 \<mapsto> zombie3\<lparr>HitToDie := wrap64 (HitToDie zombie3 - 1)\<rparr>)"
    using f z by (auto simp: mobAt_def)
  then show ?thesis using c f
    by (auto simp: gameWith_def zombie3_def wrap64_def)
qed

section \<open>One tick: the checkpoint and the dog\<close>

lemma voicePlays_append: "voicePlays (xs @ ys) = voicePlays xs @ voicePlays ys"
  by (induction xs rule: voicePlays.induct) simp_all

lemma hitObject_frame:
  "hitObject g ob = Inr g' \<Longrightarrow>
   Checkpoint g' = Checkpoint g \<and> voicePlays (Audio g') = voicePlays (Audio g)"
  by (auto simp: hitObject_def playAudio_def Let_def voicePlays_append
      split: data.splits option.splits)

lemma Shoot_frame:
  assumes "Shoot env g = Inr g'"
  shows "Checkpoint g' = Checkpoint g \<and> voicePlays (Audio g') = voicePlays (Audio g)"
proof -
  let ?g2 = "g\<lparr>Audio := Audio g @ [Rewind (SoundAt soundGunShot 0), Play (SoundAt soundGunShot 0)],
           Player := (Player g)\<lparr>Ammo := Ammo (Player g) - 1, PlayerState := playerShooting\<rparr>\<rparr>"
  have g2: "Checkpoint ?g2 = Checkpoint g" "voicePlays (Audio ?g2) = voicePlays (Audio g)"
    by (simp_all add: voicePlays_append)
  have ir: "Checkpoint (interruptReload g) = Checkpoint g"
    "voicePlays (Audio (interruptReload g)) = voicePlays (Audio g)"
    by (simp_all add: interruptReload_def playAudio_def Let_def voicePlays_append)
  have sc: "Checkpoint g' = Checkpoint g \<and> voicePlays (Audio g') = voicePlays (Audio g)"
    if "shootCells ?g2 (CellsInLine env) = Inr g'"
  proof (cases "firstMob (CellsInLine env)")
    case None
    then show ?thesis using that g2 by (simp add: shootCells_firstMob)
  next
    case (Some ob)
    then have "hitObject ?g2 ob = Inr g'" using that by (simp add: shootCells_firstMob)
    from hitObject_frame[OF this] show ?thesis using g2 by simp
  qed
  from assms have
    "g' = g \<or> g' = interruptReload g \<or> shootCells ?g2 (CellsInLine env) = Inr g'"
    unfolding Shoot_cases by (simp split: if_splits)
  then show ?thesis using ir sc by blast
qed

lemma agents_frame:
  assumes f: "checkpointOnlyHere env" and u: "Update_agents env g = Inr g1"
  shows "Checkpoint g1 = Checkpoint g \<and> voicePlays (Audio g1) = voicePlays (Audio g)"
proof -
  let ?g1 = "g\<lparr>Tick := wrap64 (Tick g + 1)\<rparr>"
  let ?g2 = "(if keyR env then
                  (case PlayerState (Player ?g1) of
                     playerShooting \<Rightarrow> ?g1
                   | playerReload \<Rightarrow> ?g1
                   | _ \<Rightarrow> PlayerReload env ?g1)
                else ?g1)"
  have l: "leavesCheckpoint (PlayerReload env)" "leavesCheckpoint (PlayerUpdate env)"
      "leavesCheckpoint (DogUpdate env)" "leavesCheckpoint (ZombiesUpdate env)"
      "leavesCheckpoint (SpawnPointsUpdate env)"
    using f by (simp_all add: checkpointOnlyHere_def)
  have 2: "Checkpoint ?g2 = Checkpoint g \<and> voicePlays (Audio ?g2) = voicePlays (Audio g)"
    using l(1) by (cases "PlayerState (Player g)") (simp_all add: leavesCheckpoint_def)
  from u have "bindE (if clicked env then Shoot env ?g2 else Inr ?g2) (\<lambda>g3.
         Inr (SpawnPointsUpdate env (ZombiesUpdate env (DogUpdate env (PlayerUpdate env g3)))))
       = Inr g1"
    by (simp add: Update_agents_def Let_def)
  from bindE_Inr[OF this] obtain g3 where
    g3: "(if clicked env then Shoot env ?g2 else Inr ?g2) = Inr g3"
    and g1: "g1 = SpawnPointsUpdate env (ZombiesUpdate env (DogUpdate env (PlayerUpdate env g3)))"
    by auto
  have 3: "Checkpoint g3 = Checkpoint g \<and> voicePlays (Audio g3) = voicePlays (Audio g)"
  proof (cases "clicked env")
    case True
    then show ?thesis using g3 Shoot_frame[of env ?g2 g3] 2 by simp
  next
    case False
    then show ?thesis using g3 2 by auto
  qed
  show ?thesis unfolding g1 using l(2-5) 3 by (simp add: leavesCheckpoint_def)
qed

lemma index_Voices: "index Voices i = Inr v \<Longrightarrow> v = VoiceAt (nat i) \<and> 0 \<le> i \<and> i < 7"
  by (auto simp: index_def Voices_def split: if_splits)

lemma index_first: "index objs 0 = Inr ob \<Longrightarrow> \<exists>obs. objs = ob # obs"
  by (cases objs) (auto simp: index_def)

lemma checkpoint_block:
  assumes "Update_checkpoint env g = Inr g'"
  shows "Checkpoint g \<le> Checkpoint g' \<and>
     (if Checkpoint g < Checkpoint g' then
        (\<exists>ob obs. PlayerCheck env tagCheckpoint = Some (ob # obs) \<and> PlayerOverlaps env ob \<and>
            Data ob = IntData (Checkpoint g')) \<and>
        voicePlays (Audio g') = voicePlays (Audio g) @ [nat (Checkpoint g' - 1)]
      else voicePlays (Audio g') = voicePlays (Audio g))"
proof (cases "PlayerCheck env tagCheckpoint")
  case None
  then show ?thesis using assms by (simp add: Update_checkpoint_def)
next
  case (Some objs)
  with assms have "bindE (index objs 0) (\<lambda>ob.
            if PlayerOverlaps env ob then
              (case Data ob of
                 IntData n \<Rightarrow>
                   if Checkpoint g < n then
                     (let g1 = g\<lparr>Checkpoint := n\<rparr>
                      in bindE (index Voices (Checkpoint g1 - 1)) (\<lambda>v.
                         Inr (playAudio [Rewind v, Play v] g1)))
                   else Inr g
               | _ \<Rightarrow> Inl TypeAssertion)
            else Inr g) = Inr g'"
    by (simp add: Update_checkpoint_def)
  from bindE_Inr[OF this] obtain ob where ob: "index objs 0 = Inr ob"
    and r: "(if PlayerOverlaps env ob then
              (case Data ob of
                 IntData n \<Rightarrow>
                   if Checkpoint g < n then
                     (let g1 = g\<lparr>Checkpoint := n\<rparr>
                      in bindE (index Voices (Checkpoint g1 - 1)) (\<lambda>v.
                         Inr (playAudio [Rewind v, Play v] g1)))
                   else Inr g
               | _ \<Rightarrow> Inl TypeAssertion)
            else Inr g) = Inr g'"
    by blast
  from index_first[OF ob] obtain obs where objs: "objs = ob # obs" by blast
  show ?thesis
  proof (cases "PlayerOverlaps env ob")
    case False
    then show ?thesis using r by simp
  next
    case True
    with r obtain n where n: "Data ob = IntData n"
      by (cases "Data ob") auto
    show ?thesis
    proof (cases "Checkpoint g < n")
      case False
      then show ?thesis using r True n by simp
    next
      case lt: True
      with r True n have "bindE (index Voices (n - 1)) (\<lambda>v.
                         Inr (playAudio [Rewind v, Play v] (g\<lparr>Checkpoint := n\<rparr>))) = Inr g'"
        by (simp add: Let_def)
      from bindE_Inr[OF this] obtain v where v: "index Voices (n - 1) = Inr v"
        and g': "g' = playAudio [Rewind v, Play v] (g\<lparr>Checkpoint := n\<rparr>)"
        by auto
      from index_Voices[OF v] have "v = VoiceAt (nat (n - 1))" by simp
      then show ?thesis using lt g' Some objs True n
        by (simp add: playAudio_def voicePlays_append)
    qed
  qed
qed

lemma playerMob_frame:
  "Update_playerMob env g = Inr (Some (g', st)) \<Longrightarrow>
   Checkpoint g' = Checkpoint g \<and> voicePlays (Audio g') = voicePlays (Audio g)"
  by (auto simp: Update_playerMob_def bindE_def playAudio_def voicePlays_append
      split: option.splits sum.splits if_splits)

lemma end_frame: "Update_end env g = Inr (Some (g', st)) \<Longrightarrow> g' = g"
  by (auto simp: Update_end_def bindE_def split: option.splits sum.splits if_splits)

lemma dogMob_frame:
  "Update_dogMob env g = Inr g' \<Longrightarrow> Checkpoint g' = Checkpoint g \<and> Audio g' = Audio g"
  by (auto simp: Update_dogMob_def bindE_def split: option.splits sum.splits if_splits)

lemma dogDead_frame:
  "Update_dogDead g = (g', st) \<Longrightarrow>
   Checkpoint g' = Checkpoint g \<and> voicePlays (Audio g') = voicePlays (Audio g)"
  by (auto simp: Update_dogDead_def playAudio_def voicePlays_append split: if_splits)

text \<open>Of the collision blocks only the checkpoint block touches the checkpoint.\<close>

lemma collisions_checkpoint:
  assumes "Update_collisions env g = Inr (g', st)"
  shows "(Checkpoint g' = Checkpoint g \<and> voicePlays (Audio g') = voicePlays (Audio g)) \<or>
         (\<exists>g1. Update_checkpoint env g = Inr g1 \<and> Checkpoint g' = Checkpoint g1 \<and>
               voicePlays (Audio g') = voicePlays (Audio g1))"
proof (cases "Update_playerMob env g")
  case (Inl e)
  then show ?thesis using assms by (simp add: Update_collisions_def)
next
  case (Inr r)
  show ?thesis
  proof (cases r)
    case (Some res)
    then show ?thesis using assms Inr playerMob_frame[of env g g' st]
      by (simp add: Update_collisions_def)
  next
    case None
    with assms Inr have "bindE (Update_checkpoint env g) (\<lambda>g1.
           bindE (Update_end env g1) (\<lambda>r1.
             case r1 of
               Some res \<Rightarrow> Inr res
             | None \<Rightarrow> bindE (Update_dogMob env g1) (\<lambda>g2. Inr (Update_dogDead g2))))
        = Inr (g', st)"
      by (simp add: Update_collisions_def)
    from bindE_Inr[OF this] obtain g1 where g1: "Update_checkpoint env g = Inr g1"
      and rest: "bindE (Update_end env g1) (\<lambda>r1.
             case r1 of
               Some res \<Rightarrow> Inr res
             | None \<Rightarrow> bindE (Update_dogMob env g1) (\<lambda>g2. Inr (Update_dogDead g2)))
        = Inr (g', st)"
      by blast
    have "Checkpoint g' = Checkpoint g1 \<and> voicePlays (Audio g') = voicePlays (Audio g1)"
    proof (cases "Update_end env g1")
      case (Inl e)
      then show ?thesis using rest by simp
    next
      case Inr2: (Inr r1)
      show ?thesis
      proof (cases r1)
        case (Some res)
        then show ?thesis using rest Inr2 end_frame[of env g1 g' st] by simp
      next
        case None
        with rest Inr2 have
          "bindE (Update_dogMob env g1) (\<lambda>g2. Inr (Update_dogDead g2)) = Inr (g', st)"
          by simp
        from bindE_Inr[OF this] obtain g2 where g2: "Update_dogMob env g1 = Inr g2"
          and d: "Update_dogDead g2 = (g', st)"
          by auto
        show ?thesis using dogMob_frame[OF g2] dogDead_frame[OF d] by simp
      qed
    qed
    then show ?thesis using g1 by blast
  qed
qed

text \<open>
  C10. Across a tick of \<open>Update\<close> the checkpoint never goes down. It changes only when
  the first object of the player's collision with the tag \<open>check\<close> overlaps the player
  and carries a number greater than the checkpoint, which then becomes the checkpoint;
  the voice of checkpoint \<open>N\<close>, at index \<open>N - 1\<close>, is played in that tick and in no other:
  a tick that leaves the checkpoint as it is plays no checkpoint voice. (The methods of
  the player, the dog, the zombies and the spawn points are not in these files; they are
  taken not to assign the checkpoint or play its voices.)
\<close>

theorem Checkpoint_monotone:
  assumes "checkpointOnlyHere env" "Update env g = Inr (g', st)"
  shows "Checkpoint g \<le> Checkpoint g' \<and>
     (if Checkpoint g < Checkpoint g' then
        (\<exists>ob obs. PlayerCheck env tagCheckpoint = Some (ob # obs) \<and> PlayerOverlaps env ob \<and>
            Data ob = IntData (Checkpoint g')) \<and>
        voicePlays (Audio g') = voicePlays (Audio g) @ [nat (Checkpoint g' - 1)]
      else voicePlays (Audio g') = voicePlays (Audio g))"
proof -
  from assms(2) have "bindE (Update_agents env g) (Update_collisions env) = Inr (g', st)"
    by (simp add: Update_def)
  from bindE_Inr[OF this] obtain g0 where a: "Update_agents env g = Inr g0"
    and c: "Update_collisions env g0 = Inr (g', st)"
    by blast
  note f = agents_frame[OF assms(1) a]
  from collisions_checkpoint[OF c] show ?thesis
  proof
    assume "Checkpoint g' = Checkpoint g0 \<and> voicePlays (Audio g') = voicePlays (Audio g0)"
    then show ?thesis using f by simp
  next
    assume "\<exists>g1. Update_checkpoint env g0 = Inr g1 \<and> Checkpoint g' = Checkpoint g1 \<and>
               voicePlays (Audio g') = voicePlays (Audio g1)"
    then obtain g1 where g1: "Update_checkpoint env g0 = Inr g1"
      "Checkpoint g' = Checkpoint g1" "voicePlays (Audio g') = voicePlays (Audio g1)" by blast
    from checkpoint_block[OF g1(1)] show ?thesis
      unfolding g1(2) g1(3) using f by (cases "Checkpoint g < Checkpoint g1") auto
  qed
qed

lemma checkpointEnv_only: "checkpointOnlyHere (checkpointEnv n)"
  by (simp add: checkpointOnlyHere_def leavesCheckpoint_def checkpointEnv_def quietEnv_def)

lemma Update_checkpointEnv:
  "Update (checkpointEnv 2) (gameWith 1 playerReady) =
     Inr ((gameWith 1 playerReady)
            \<lparr>Tick := 1, Checkpoint := 2, Audio := [Rewind (VoiceAt 1), Play (VoiceAt 1)]\<rparr>,
          gameRunning)"
  by (simp add: Update_def Update_agents_def Update_collisions_def Update_playerMob_def
      Update_checkpoint_def Update_end_def Update_dogMob_def Update_dogDead_def
      checkpointEnv_def quietEnv_def gameWith_def checkpointObject_def index_def Voices_def
      playAudio_def wrap64_def tagMob_def tagCheckpoint_def tagEnd_def Let_def)

theorem Checkpoint_monotone_witness:
  "checkpointOnlyHere (checkpointEnv 2) \<and>
   Update (checkpointEnv 2) (gameWith 1 playerReady) =
     Inr ((gameWith 1 playerReady)
            \<lparr>Tick := 1, Checkpoint := 2, Audio := [Rewind (VoiceAt 1), Play (VoiceAt 1)]\<rparr>,
          gameRunning) \<and>
   Checkpoint (gameWith 1 playerReady) = 0 \<and>
   voicePlays [Rewind (VoiceAt 1), Play (VoiceAt 1)] = [] @ [nat (2 - 1)]"
  using Checkpoint_monotone[OF checkpointEnv_only Update_checkpointEnv]
    checkpointEnv_only Update_checkpointEnv
  by (simp add: gameWith_def)

text \<open>
  C9, as the code has it. In every tick that gets as far as the dog's collision check
  (the update has not returned before it, with \<open>gameOver\<close> because the player intersects
  a zombie or with \<open>gameWon\<close> because the player overlaps the \<open>End\<close> entity) and in which
  the first object of the dog's collision with the tag \<open>mob\<close> overlaps the dog, the dog's
  mode is set to \<open>dogDead\<close>, the background music is stopped and \<open>Update\<close> returns
  \<open>gameOver\<close> in that same tick.
\<close>

theorem dog_caught:
  assumes "Update_agents env g = Inr g1" "Update_playerMob env g1 = Inr None"
    "Update_checkpoint env g1 = Inr g2" "Update_end env g2 = Inr None" "zombieOnDog env"
  shows "\<exists>g'. Update env g = Inr (g', gameOver) \<and> Mode (Dog g') = dogDead \<and>
           Audio g' = Audio g2 @ [Pause (SoundAt soundMusicBackground 0),
                                  Rewind (SoundAt soundMusicBackground 0)]"
proof -
  from assms(5) obtain ob obs where
    d: "DogCheck env tagMob = Some (ob # obs)" "DogOverlaps env ob"
    by (auto simp: zombieOnDog_def split: option.splits list.splits)
  have "Update_dogMob env g2 = Inr (g2\<lparr>Dog := (Dog g2)\<lparr>Mode := dogDead\<rparr>\<rparr>)"
    using d by (simp add: Update_dogMob_def index_def)
  then show ?thesis using assms(1-4)
    by (simp add: Update_def Update_collisions_def Update_dogDead_def playAudio_def)
qed

theorem dog_caught_witness:
  "Update_agents dogEnv (gameWith 1 playerReady) = Inr ((gameWith 1 playerReady)\<lparr>Tick := 1\<rparr>) \<and>
   Update_playerMob dogEnv ((gameWith 1 playerReady)\<lparr>Tick := 1\<rparr>) = Inr None \<and>
   Update_checkpoint dogEnv ((gameWith 1 playerReady)\<lparr>Tick := 1\<rparr>) =
     Inr ((gameWith 1 playerReady)\<lparr>Tick := 1\<rparr>) \<and>
   Update_end dogEnv ((gameWith 1 playerReady)\<lparr>Tick := 1\<rparr>) = Inr None \<and>
   zombieOnDog dogEnv \<and>
   (\<exists>g'. Update dogEnv (gameWith 1 playerReady) = Inr (g', gameOver) \<and>
      Mode (Dog g') = dogDead)"
proof -
  have a: "Update_agents dogEnv (gameWith 1 playerReady) =
      Inr ((gameWith 1 playerReady)\<lparr>Tick := 1\<rparr>)"
    by (simp add: Update_agents_def dogEnv_def quietEnv_def gameWith_def wrap64_def Let_def)
  have b: "Update_playerMob dogEnv ((gameWith 1 playerReady)\<lparr>Tick := 1\<rparr>) = Inr None"
    by (simp add: Update_playerMob_def dogEnv_def quietEnv_def)
  have c: "Update_checkpoint dogEnv ((gameWith 1 playerReady)\<lparr>Tick := 1\<rparr>) =
      Inr ((gameWith 1 playerReady)\<lparr>Tick := 1\<rparr>)"
    by (simp add: Update_checkpoint_def dogEnv_def quietEnv_def)
  have d: "Update_end dogEnv ((gameWith 1 playerReady)\<lparr>Tick := 1\<rparr>) = Inr None"
    by (simp add: Update_end_def dogEnv_def quietEnv_def)
  have e: "zombieOnDog dogEnv"
    by (simp add: zombieOnDog_def dogEnv_def)
  show ?thesis using dog_caught[OF a b c d e] a b c d e by blast
qed

text \<open>
  The claim as stated fails in a tick in which the player stands on the \<open>End\<close> entity
  while a zombie is on the dog: \<open>Update\<close> returns \<open>gameWon\<close> before it looks at the dog,
  and the dog is not set to \<open>dogDead\<close>.
\<close>

theorem dog_not_checked_counterexample:
  "zombieOnDog endEnv \<and>
   Update endEnv (gameWith 1 playerReady) = Inr ((gameWith 1 playerReady)\<lparr>Tick := 1\<rparr>, gameWon) \<and>
   Mode (Dog ((gameWith 1 playerReady)\<lparr>Tick := 1\<rparr>)) = dogWalking"
  by (simp add: zombieOnDog_def Update_def Update_agents_def Update_collisions_def
      Update_playerMob_def Update_checkpoint_def Update_end_def
      endEnv_def dogEnv_def quietEnv_def gameWith_def endObject_def index_def
      wrap64_def tagMob_def tagCheckpoint_def tagEnd_def Let_def)


section \<open>The boss\<close>

text \<open>\<open>Boss.Update\<close> of a living boss, while an animation runs and when it ends.\<close>

lemma BossUpdate_running:
  assumes "\<not> Dead z"
    "Animate env (Frame z) (Tick g) (FrameTags env (selectState z)) \<noteq>
       To (FrameTags env (selectState z))"
  shows "BossUpdate env g z =
     (let z2 = z\<lparr>State := selectState z,
                 Frame := Animate env (Frame z) (Tick g) (FrameTags env (selectState z))\<rparr>
      in if selectState z = bossDeath1 \<or> selectState z = bossDeath2 \<or> selectState z = bossPhase2
         then (None, g, z2)
         else (fst (ZombieUpdate env g (Zombie z)),
               fst (snd (ZombieUpdate env g (Zombie z))),
               z2\<lparr>Zombie := snd (snd (ZombieUpdate env g (Zombie z)))\<rparr>))"
  using assms by (simp add: BossUpdate_def Let_def split_beta)

lemma BossUpdate_complete:
  assumes "\<not> Dead z"
    "Animate env (Frame z) (Tick g) (FrameTags env (selectState z)) =
       To (FrameTags env (selectState z))"
  shows "BossUpdate env g z =
     (let r = outterAnimationBasedStateChanges env g
                (z\<lparr>State := selectState z, Frame := To (FrameTags env (selectState z))\<rparr>)
      in if State (snd r) = bossDeath1 \<or> State (snd r) = bossDeath2 \<or> State (snd r) = bossPhase2
         then (None, fst r, snd r)
         else (fst (ZombieUpdate env (fst r) (Zombie (snd r))),
               fst (snd (ZombieUpdate env (fst r) (Zombie (snd r)))),
               (snd r)\<lparr>Zombie := snd (snd (ZombieUpdate env (fst r) (Zombie (snd r))))\<rparr>))"
  using assms by (simp add: BossUpdate_def Let_def split_beta)

lemma callback_Dead:
  "\<not> Dead z \<Longrightarrow>
   Dead (snd (outterAnimationBasedStateChanges env g z)) = (State z = bossDeath2)"
  by (cases "State z")
     (simp_all add: outterAnimationBasedStateChanges_def BossDie_def split_beta Let_def)

lemma callback_death2:
  "State z = bossDeath2 \<Longrightarrow>
   outterAnimationBasedStateChanges env g z =
     ((fst (ZombieDie env (playAudio [Play (SoundOf soundBigZombieDeath2)] g) (Zombie z)))
        \<lparr>BossDefeated := True\<rparr>,
      z\<lparr>Zombie := (snd (ZombieDie env (playAudio [Play (SoundOf soundBigZombieDeath2)] g)
                        (Zombie z)))\<lparr>ZombieState := zombieDead\<rparr>,
        Dead := True\<rparr>)"
  by (simp add: outterAnimationBasedStateChanges_def BossDie_def split_beta Let_def)

text \<open>
  C2, as the code has it. In \<open>Boss.Update\<close> the boss reaches its final death only by
  completing the \<open>death2\<close> animation: \<open>Dead\<close> becomes true exactly when the selected state is
  \<open>bossDeath2\<close> and the frame reaches the last frame of that tag; then the inner zombie's
  \<open>Die\<close> has been called, \<open>g.BossDefeated\<close> is set, the inner zombie is in the state
  \<open>zombieDead\<close> and the update returns no error. The phase flag plays no part in it and is
  left as it was: the state \<open>bossDeath2\<close> is selected with one hit left and the inner zombie
  hit, in phase 1 as in phase 2.
\<close>

theorem Boss_dies_by_death2:
  assumes "\<not> Dead z" "BossUpdate env g z = (err, g', z')"
  shows "Dead z' =
           (selectState z = bossDeath2 \<and>
            Animate env (Frame z) (Tick g) (FrameTags env bossDeath2) = To (FrameTags env bossDeath2)) \<and>
         (Dead z' \<longrightarrow> err = None \<and> BossDefeated g' \<and> ZombieState (Zombie z') = zombieDead \<and>
           Daemon z' = Daemon z \<and>
           g' = (fst (ZombieDie env (playAudio [Play (SoundOf soundBigZombieDeath2)] g) (Zombie z)))
                  \<lparr>BossDefeated := True\<rparr>)"
proof -
  let ?s = "selectState z"
  let ?f = "Animate env (Frame z) (Tick g) (FrameTags env ?s)"
  show ?thesis
  proof (cases "?f = To (FrameTags env ?s)")
    case False
    have "\<not> Dead z'"
      using assms(2) assms(1) unfolding BossUpdate_running[OF assms(1) False]
      by (auto simp: Let_def split: if_splits)
    then show ?thesis using False by auto
  next
    case True
    let ?z2 = "z\<lparr>State := ?s, Frame := To (FrameTags env ?s)\<rparr>"
    let ?r = "outterAnimationBasedStateChanges env g ?z2"
    have nd: "\<not> Dead ?z2" using assms(1) by simp
    show ?thesis
    proof (cases "?s = bossDeath2")
      case d2: True
      have "?r =
         ((fst (ZombieDie env (playAudio [Play (SoundOf soundBigZombieDeath2)] g) (Zombie z)))
            \<lparr>BossDefeated := True\<rparr>,
          ?z2\<lparr>Zombie := (snd (ZombieDie env (playAudio [Play (SoundOf soundBigZombieDeath2)] g)
                        (Zombie z)))\<lparr>ZombieState := zombieDead\<rparr>,
            Dead := True\<rparr>)"
        using callback_death2[of ?z2 env g] d2 by simp
      then show ?thesis
        using assms(2) True d2 unfolding BossUpdate_complete[OF assms(1) True]
        by (auto simp: Let_def)
    next
      case nd2: False
      have "\<not> Dead (snd ?r)" using callback_Dead[OF nd, of env g] nd2 by simp
      then have "\<not> Dead z'"
        using assms(2) unfolding BossUpdate_complete[OF assms(1) True]
        by (auto simp: Let_def split: if_splits)
      then show ?thesis using nd2 by auto
    qed
  qed
qed

lemma trace1:
  "bossTick phase1Boss =
     \<lparr>Zombie = \<lparr>HitToDie = 2, ZombieState = zombieHit, Speed = 1\<rparr>,
      Daemon = False, State = bossDeath1, Frame = 20, Dead = False\<rparr>"
  by (simp add: bossTick_def BossUpdate_def selectState_def bossEnv1_def phase1Boss_def Let_def)

lemma trace2:
  "hitBoss (bossTick phase1Boss) =
     \<lparr>Zombie = \<lparr>HitToDie = 1, ZombieState = zombieHit, Speed = 1\<rparr>,
      Daemon = False, State = bossDeath1, Frame = 20, Dead = False\<rparr>"
  unfolding trace1 by (simp add: hitBoss_def Hit_def wrap64_def)

lemma trace3:
  "bossTick (hitBoss (bossTick phase1Boss)) =
     \<lparr>Zombie = \<lparr>HitToDie = 1, ZombieState = zombieHit, Speed = 1\<rparr>,
      Daemon = False, State = bossDeath2, Frame = 22, Dead = False\<rparr>"
  unfolding trace2
  by (simp add: bossTick_def BossUpdate_def selectState_def bossEnv1_def Let_def)

lemma trace4:
  "BossUpdate bossEnv1 (gameWith 1 playerReady) (bossTick (hitBoss (bossTick phase1Boss))) =
     (None,
      (gameWith 1 playerReady)\<lparr>BossDefeated := True, Audio := [Play (SoundOf soundBigZombieDeath2)]\<rparr>,
      \<lparr>Zombie = \<lparr>HitToDie = 1, ZombieState = zombieDead, Speed = 1\<rparr>,
       Daemon = False, State = bossDeath2, Frame = 23, Dead = True\<rparr>)"
  unfolding trace3
  by (simp add: BossUpdate_def selectState_def bossEnv1_def Let_def
      outterAnimationBasedStateChanges_def BossDie_def playAudio_def gameWith_def)

theorem Boss_dies_by_death2_witness:
  "\<not> Dead (bossTick (hitBoss (bossTick phase1Boss))) \<and>
   selectState (bossTick (hitBoss (bossTick phase1Boss))) = bossDeath2 \<and>
   Dead (snd (snd (BossUpdate bossEnv1 (gameWith 1 playerReady)
      (bossTick (hitBoss (bossTick phase1Boss)))))) \<and>
   BossDefeated (fst (snd (BossUpdate bossEnv1 (gameWith 1 playerReady)
      (bossTick (hitBoss (bossTick phase1Boss))))))"
proof -
  let ?z = "bossTick (hitBoss (bossTick phase1Boss))"
  have nd: "\<not> Dead ?z" unfolding trace3 by simp
  have d: "Dead (snd (snd (BossUpdate bossEnv1 (gameWith 1 playerReady) ?z)))"
    unfolding trace4 by simp
  have e: "BossDefeated (fst (snd (BossUpdate bossEnv1 (gameWith 1 playerReady) ?z)))"
    unfolding trace4 by simp
  from Boss_dies_by_death2[OF nd trace4] d have "selectState ?z = bossDeath2"
    unfolding trace4 by simp
  then show ?thesis using nd d e by blast
qed

text \<open>
  The claim as stated fails: a boss in phase 1 with two hits left is hit, starts the
  \<open>death1\<close> animation, and is hit again before that animation ends. With one hit left it
  plays \<open>death2\<close> and dies for good, \<open>Daemon\<close> still false.
\<close>

theorem Boss_dies_in_phase1_counterexample:
  "\<not> Daemon phase1Boss \<and> \<not> Dead phase1Boss \<and>
   Dead (bossTick (bossTick (hitBoss (bossTick phase1Boss)))) \<and>
   \<not> Daemon (bossTick (bossTick (hitBoss (bossTick phase1Boss)))) \<and>
   BossDefeated (fst (snd (BossUpdate bossEnv1 (gameWith 1 playerReady)
      (bossTick (hitBoss (bossTick phase1Boss))))))"
proof -
  have a: "\<not> Daemon phase1Boss" "\<not> Dead phase1Boss" by (simp_all add: phase1Boss_def)
  have b: "bossTick (bossTick (hitBoss (bossTick phase1Boss))) =
     \<lparr>Zombie = \<lparr>HitToDie = 1, ZombieState = zombieDead, Speed = 1\<rparr>,
       Daemon = False, State = bossDeath2, Frame = 23, Dead = True\<rparr>"
    unfolding bossTick_def[of "bossTick (hitBoss (bossTick phase1Boss))"] trace4 by simp
  have c: "BossDefeated (fst (snd (BossUpdate bossEnv1 (gameWith 1 playerReady)
      (bossTick (hitBoss (bossTick phase1Boss))))))"
    unfolding trace4 by simp
  show ?thesis unfolding b using a c by simp
qed


text \<open>
  C4, as the code has it. A living boss in phase 1 with \<open>HitToDie = 2\<close> whose inner zombie
  is hit enters the \<open>death1\<close> animation, and the update returns no error and leaves
  \<open>HitToDie\<close> at 2 and \<open>Dead\<close> false. While the animation runs nothing else changes. When it
  ends the boss does not die but goes into phase 2: \<open>Daemon\<close> is set, the speed becomes
  \<open>zombieSprinterSpeed * 2\<close>, the sound of the first death is played, the state is
  \<open>bossPhase2\<close> and the inner zombie walks.
\<close>

theorem Boss_phase_transition:
  assumes "\<not> Dead z" "\<not> Daemon z" "HitToDie (Zombie z) = 2" "ZombieState (Zombie z) = zombieHit"
    "BossUpdate env g z = (err, g', z')"
  shows "selectState z = bossDeath1 \<and> err = None \<and> \<not> Dead z' \<and> HitToDie (Zombie z') = 2 \<and>
     (if Animate env (Frame z) (Tick g) (FrameTags env bossDeath1) = To (FrameTags env bossDeath1)
      then Daemon z' \<and> State z' = bossPhase2 \<and>
           Speed (Zombie z') = zombieSprinterSpeed env * 2 \<and>
           ZombieState (Zombie z') = zombieWalking \<and>
           Audio g' = Audio g @ [Play (SoundOf soundBigZombieDeath1)]
      else \<not> Daemon z' \<and> State z' = bossDeath1 \<and> Zombie z' = Zombie z \<and> g' = g)"
proof -
  have s: "selectState z = bossDeath1" using assms(2-4) by (simp add: selectState_def)
  show ?thesis
  proof (cases "Animate env (Frame z) (Tick g) (FrameTags env bossDeath1) =
      To (FrameTags env bossDeath1)")
    case True
    then have c: "Animate env (Frame z) (Tick g) (FrameTags env (selectState z)) =
       To (FrameTags env (selectState z))" using s by simp
    show ?thesis
      using assms(1-4) assms(5) True unfolding BossUpdate_complete[OF assms(1) c]
      by (auto simp: Let_def outterAnimationBasedStateChanges_def playAudio_def s)
  next
    case False
    then have c: "Animate env (Frame z) (Tick g) (FrameTags env (selectState z)) \<noteq>
       To (FrameTags env (selectState z))" using s by simp
    show ?thesis
      using assms(1-4) assms(5) False unfolding BossUpdate_running[OF assms(1) c]
      by (auto simp: Let_def s)
  qed
qed

lemma transition_tick:
  "BossUpdate bossEnv1 (gameWith 1 playerReady) (bossTick phase1Boss) =
     (None,
      (gameWith 1 playerReady)\<lparr>Audio := [Play (SoundOf soundBigZombieDeath1)]\<rparr>,
      \<lparr>Zombie = \<lparr>HitToDie = 2, ZombieState = zombieWalking, Speed = 6\<rparr>,
       Daemon = True, State = bossPhase2, Frame = 21, Dead = False\<rparr>)"
  unfolding trace1
  by (simp add: BossUpdate_def selectState_def bossEnv1_def Let_def
      outterAnimationBasedStateChanges_def playAudio_def gameWith_def)

theorem Boss_phase_transition_witness:
  "\<not> Dead (bossTick phase1Boss) \<and> \<not> Daemon (bossTick phase1Boss) \<and>
   HitToDie (Zombie (bossTick phase1Boss)) = 2 \<and>
   ZombieState (Zombie (bossTick phase1Boss)) = zombieHit \<and>
   Animate bossEnv1 (Frame (bossTick phase1Boss)) (Tick (gameWith 1 playerReady))
     (FrameTags bossEnv1 bossDeath1) = To (FrameTags bossEnv1 bossDeath1) \<and>
   Daemon (snd (snd (BossUpdate bossEnv1 (gameWith 1 playerReady) (bossTick phase1Boss)))) \<and>
   \<not> Dead (snd (snd (BossUpdate bossEnv1 (gameWith 1 playerReady) (bossTick phase1Boss)))) \<and>
   Speed (Zombie (snd (snd (BossUpdate bossEnv1 (gameWith 1 playerReady)
      (bossTick phase1Boss))))) = zombieSprinterSpeed bossEnv1 * 2"
proof -
  let ?z = "bossTick phase1Boss"
  have h: "\<not> Dead ?z" "\<not> Daemon ?z" "HitToDie (Zombie ?z) = 2"
    "ZombieState (Zombie ?z) = zombieHit"
    unfolding trace1 by simp_all
  have a: "Animate bossEnv1 (Frame ?z) (Tick (gameWith 1 playerReady))
     (FrameTags bossEnv1 bossDeath1) = To (FrameTags bossEnv1 bossDeath1)"
    unfolding trace1 by (simp add: bossEnv1_def)
  from Boss_phase_transition[OF h transition_tick] a have
    "Daemon (snd (snd (BossUpdate bossEnv1 (gameWith 1 playerReady) ?z)))"
    "\<not> Dead (snd (snd (BossUpdate bossEnv1 (gameWith 1 playerReady) ?z)))"
    "Speed (Zombie (snd (snd (BossUpdate bossEnv1 (gameWith 1 playerReady) ?z)))) =
       zombieSprinterSpeed bossEnv1 * 2"
    unfolding transition_tick by simp_all
  then show ?thesis using h a by blast
qed

text \<open>
  The claim as stated fails: in phase 1 with \<open>HitToDie = 1\<close> and the inner zombie hit the
  boss enters \<open>death2\<close>, not \<open>death1\<close>; and what the end of \<open>death1\<close> plays is the sound of
  the first death, not the scream.
\<close>

theorem Boss_death1_counterexample:
  "\<not> Daemon (hitBoss (bossTick phase1Boss)) \<and>
   HitToDie (Zombie (hitBoss (bossTick phase1Boss))) = 1 \<and>
   ZombieState (Zombie (hitBoss (bossTick phase1Boss))) = zombieHit \<and>
   selectState (hitBoss (bossTick phase1Boss)) = bossDeath2 \<and>
   Audio (fst (snd (BossUpdate bossEnv1 (gameWith 1 playerReady) (bossTick phase1Boss)))) =
     [Play (SoundOf soundBigZombieDeath1)]"
  unfolding trace2 transition_tick by (simp add: selectState_def)


section \<open>Normalising a vector\<close>



























end
